theory Spec2Isabelle
  imports Main "HOL-Library.Multiset"
begin

section \<open>Data model\<close>

text \<open>
  The task tracker keeps every task as a plain JavaScript object inside one JSON document
  in the browser's key-value store. A task is the record of README "Data Model":
  strings stay strings (priority and status are \<^emph>\<open>not\<close> closed enumerations in the code:
  \<open>updateTask\<close> validates the priority but merges any status), a value that may be
  \<open>null\<close> or missing is an \<open>option\<close>, and the three time stamps, which the code writes
  with \<open>new Date().toISOString()\<close> and reads back with \<open>new Date(...)\<close>, are the time
  values they denote (milliseconds since the epoch).
\<close>

type_synonym time = int

text \<open>
  The \<open>interval\<close> of a recurrence rule. The code tells three cases apart: the field is
  missing (\<open>undefined\<close>, the only case in which a destructuring default applies), it is
  \<open>null\<close> (which arithmetic reads as 0), or it is a number: the count of days, weeks or
  months of README "Creating Recurring Tasks", an integer.
\<close>

datatype interval_field =
  IntervalMissing
  | IntervalNull
  | IntervalNumber int

record recurring =
  frequency :: string
  interval :: interval_field

record task =
  taskId :: string
  title :: string
  description :: string
  priority :: string
  status :: string
  tags :: "string list"
  dueDate :: "string option"
  parentId :: "string option"
  subtasks :: "string list option"
  recurring :: "recurring option"
  createdAt :: time
  updatedAt :: time
  completedAt :: "time option"

record settings =
  lastFilter :: string
  sortBy :: string
  sortOrder :: string

record storage_data =
  version :: string
  tasks :: "task list"
  settings :: "settings option"
  lastUpdated :: "time option"

text \<open>What the user sees of the quota recovery: the dialogs and the download.\<close>

datatype event =
  AlertRemoved nat
  | ConfirmExport
  | ExportTasks "task list"
  | AlertCleared nat

text \<open>
  Everything the code asks of the browser is a field of \<open>host\<close>: the clock; the local
  time zone, as ECMAScript's \<open>LocalTZA(t, isUTC)\<close>: the offset of local time from
  UTC in milliseconds, at the UTC time \<open>t\<close> when the flag is true and at the local time
  \<open>t\<close> when it is false (the offset changes with daylight saving); the \<open>Date\<close>
  parser (\<open>None\<close> is \<open>NaN\<close>); \<open>localeCompare\<close>; the random suffix of
  \<open>generateId\<close>; the value of \<open>Math.round((completed / total) * 100)\<close>, which the
  engine computes in double precision; the length of \<open>JSON.stringify(data)\<close>; whether
  \<open>localStorage.setItem\<close> raises \<open>QuotaExceededError\<close> for a document; the user's
  answer to \<open>confirm\<close> (it may depend on what was shown before); and the depth of the
  call stack.
\<close>

record host =
  now :: time
  localTZA :: "time \<Rightarrow> bool \<Rightarrow> int"
  parseDate :: "string \<Rightarrow> time option"
  localeCompare :: "string \<Rightarrow> string \<Rightarrow> int"
  randomSuffix :: string
  roundPercent :: "nat \<Rightarrow> nat \<Rightarrow> nat"
  jsonLength :: "storage_data \<Rightarrow> nat"
  setItemQuota :: "storage_data \<Rightarrow> bool"
  confirm :: "event list \<Rightarrow> bool"
  stackDepth :: nat

text \<open>JavaScript truthiness of a string that may be \<open>null\<close> or \<open>undefined\<close>.\<close>

definition truthy :: "string option \<Rightarrow> bool" where
  "truthy s = (case s of None \<Rightarrow> False | Some v \<Rightarrow> v \<noteq> [])"

text \<open>A JavaScript number that may be \<open>NaN\<close> (\<open>None\<close>), with the two operations the
  comparator uses; \<open>NaN\<close> is contagious.\<close>

type_synonym jsnum = "int option"

definition num_sub :: "jsnum \<Rightarrow> jsnum \<Rightarrow> jsnum" where
  "num_sub a b = (case a of None \<Rightarrow> None | Some x \<Rightarrow> (case b of None \<Rightarrow> None | Some y \<Rightarrow> Some (x - y)))"

definition num_neg :: "jsnum \<Rightarrow> jsnum" where
  "num_neg a = (case a of None \<Rightarrow> None | Some x \<Rightarrow> Some (- x))"

definition num_add :: "jsnum \<Rightarrow> int \<Rightarrow> jsnum" where
  "num_add a n = (case a of None \<Rightarrow> None | Some x \<Rightarrow> Some (x + n))"

text \<open>
  The time value of a \<open>Date\<close> object is a number of milliseconds of at most
  8.64e15 in absolute value, or \<open>NaN\<close> (the invalid date): \<open>TimeClip\<close> makes every
  other number \<open>NaN\<close>. \<open>new Date(string)\<close> clips what the parser returns.
\<close>

definition TimeClip :: "int \<Rightarrow> jsnum" where
  "TimeClip t = (if \<bar>t\<bar> \<le> 8640000000000000 then Some t else None)"

definition newDate :: "host \<Rightarrow> string \<Rightarrow> jsnum" where
  "newDate h s = (case parseDate h s of None \<Rightarrow> None | Some t \<Rightarrow> TimeClip t)"

section \<open>Filtering and sorting module: sortTasks\<close>

text \<open>
  \<open>Array.prototype.sort\<close> with a comparator. ECMAScript requires the sort to be stable,
  and for a consistent comparator the result is then determined: it is the result of
  this insertion sort, which puts an element after exactly those elements that the
  comparator orders strictly before it. A comparator result \<open>NaN\<close> counts as \<open>0\<close>.
\<close>

definition sortCompare :: "('a \<Rightarrow> 'a \<Rightarrow> jsnum) \<Rightarrow> 'a \<Rightarrow> 'a \<Rightarrow> int" where
  "sortCompare cmp x y = (case cmp x y of None \<Rightarrow> 0 | Some v \<Rightarrow> v)"

fun sort_insert :: "('a \<Rightarrow> 'a \<Rightarrow> jsnum) \<Rightarrow> 'a \<Rightarrow> 'a list \<Rightarrow> 'a list" where
  "sort_insert cmp x [] = [x]"
| "sort_insert cmp x (y # ys) =
     (if 0 < sortCompare cmp x y then y # sort_insert cmp x ys else x # y # ys)"

definition array_sort :: "('a \<Rightarrow> 'a \<Rightarrow> jsnum) \<Rightarrow> 'a list \<Rightarrow> 'a list" where
  "array_sort cmp xs = foldr (sort_insert cmp) xs []"

text \<open>The object literal \<open>{ high: 3, medium: 2, low: 1 }\<close>; any other key reads
  \<open>undefined\<close>, and arithmetic on it gives \<open>NaN\<close>.\<close>

definition priorityOrder :: "string \<Rightarrow> jsnum" where
  "priorityOrder p =
     (if p = ''high'' then Some 3
      else if p = ''medium'' then Some 2
      else if p = ''low'' then Some 1
      else None)"

definition dateValue :: "host \<Rightarrow> string option \<Rightarrow> jsnum" where
  "dateValue h d = (case d of None \<Rightarrow> Some 0 | Some s \<Rightarrow> newDate h s)"

text \<open>
  The comparator of \<open>sortTasks\<close>. The three early returns of the \<open>dueDate\<close> case leave
  the function before the order flag is looked at; every other case computes
  \<open>comparison\<close> and negates it unless the order is \<open>asc\<close>.
\<close>

definition compareTasks :: "host \<Rightarrow> string \<Rightarrow> string \<Rightarrow> task \<Rightarrow> task \<Rightarrow> jsnum" where
  "compareTasks h by ord a b =
     (if by = ''dueDate'' \<and> \<not> truthy (dueDate a) \<and> \<not> truthy (dueDate b) then Some 0
      else if by = ''dueDate'' \<and> \<not> truthy (dueDate a) then Some 1
      else if by = ''dueDate'' \<and> \<not> truthy (dueDate b) then Some (- 1)
      else
        let comparison =
          (if by = ''dueDate'' then num_sub (dateValue h (dueDate a)) (dateValue h (dueDate b))
           else if by = ''priority'' then num_sub (priorityOrder (priority b)) (priorityOrder (priority a))
           else if by = ''createdAt'' then Some (createdAt a - createdAt b)
           else if by = ''updatedAt'' then Some (updatedAt a - updatedAt b)
           else if by = ''title'' then Some (localeCompare h (title a) (title b))
           else Some 0)
        in if ord = ''asc'' then comparison else num_neg comparison)"

definition sortTasks :: "host \<Rightarrow> task list \<Rightarrow> string \<Rightarrow> string \<Rightarrow> task list" where
  "sortTasks h ts by ord = array_sort (compareTasks h by ord) ts"

section \<open>The host's Date object\<close>

text \<open>
  Time values and the calendar follow ECMAScript's definitions (Day, TimeWithinDay,
  DayFromYear, YearFromTime, MonthFromTime, DateFromTime, MakeDay, MakeDate, LocalTime,
  UTC). Local time is UTC plus the host's offset at that moment.
\<close>

definition msPerDay :: int where
  "msPerDay = 86400000"

definition Day :: "time \<Rightarrow> int" where
  "Day t = t div msPerDay"

definition TimeWithinDay :: "time \<Rightarrow> int" where
  "TimeWithinDay t = t mod msPerDay"

definition DayFromYear :: "int \<Rightarrow> int" where
  "DayFromYear y = 365 * (y - 1970) + (y - 1969) div 4 - (y - 1901) div 100 + (y - 1601) div 400"

definition InLeapYear :: "int \<Rightarrow> int" where
  "InLeapYear y = (if y mod 4 = 0 \<and> (y mod 100 \<noteq> 0 \<or> y mod 400 = 0) then 1 else 0)"

text \<open>YearFromTime: the largest year that starts on or before the day, searched
  upwards from an estimate that is never too large.\<close>

function year_search :: "int \<Rightarrow> int \<Rightarrow> int" where
  "year_search d y = (if DayFromYear (y + 1) \<le> d then year_search d (y + 1) else y)"
  by pat_completeness auto
termination
  by (relation "measure (\<lambda>(d, y). nat (d - DayFromYear y))") (auto simp: DayFromYear_def)

declare year_search.simps [simp del]

definition YearFromDay :: "int \<Rightarrow> int" where
  "YearFromDay d = year_search d (1970 + (if 0 \<le> d then d div 366 else d div 365))"

definition YearFromTime :: "time \<Rightarrow> int" where
  "YearFromTime t = YearFromDay (Day t)"

definition DayWithinYear :: "time \<Rightarrow> int" where
  "DayWithinYear t = Day t - DayFromYear (YearFromTime t)"

text \<open>The day of the year on which month \<open>m\<close> (0 to 11) starts; \<open>l\<close> is 1 in a leap year.\<close>

definition monthStart :: "int \<Rightarrow> int \<Rightarrow> int" where
  "monthStart m l =
     (if m = 0 then 0 else if m = 1 then 31 else if m = 2 then 59 + l
      else if m = 3 then 90 + l else if m = 4 then 120 + l else if m = 5 then 151 + l
      else if m = 6 then 181 + l else if m = 7 then 212 + l else if m = 8 then 243 + l
      else if m = 9 then 273 + l else if m = 10 then 304 + l else 334 + l)"

definition MonthFromTime :: "time \<Rightarrow> int" where
  "MonthFromTime t =
     (let d = DayWithinYear t; l = InLeapYear (YearFromTime t) in
      if d < 31 then 0 else if d < 59 + l then 1 else if d < 90 + l then 2
      else if d < 120 + l then 3 else if d < 151 + l then 4 else if d < 181 + l then 5
      else if d < 212 + l then 6 else if d < 243 + l then 7 else if d < 273 + l then 8
      else if d < 304 + l then 9 else if d < 334 + l then 10 else 11)"

definition DateFromTime :: "time \<Rightarrow> int" where
  "DateFromTime t =
     DayWithinYear t - monthStart (MonthFromTime t) (InLeapYear (YearFromTime t)) + 1"

definition MakeDay :: "int \<Rightarrow> int \<Rightarrow> int \<Rightarrow> int" where
  "MakeDay y m dt =
     (let ym = y + m div 12; mn = m mod 12
      in DayFromYear ym + monthStart mn (InLeapYear ym) + dt - 1)"

definition MakeDate :: "int \<Rightarrow> int \<Rightarrow> time" where
  "MakeDate day tm = day * msPerDay + tm"

definition LocalTime :: "host \<Rightarrow> time \<Rightarrow> time" where
  "LocalTime h t = t + localTZA h t True"

definition UTC :: "host \<Rightarrow> time \<Rightarrow> time" where
  "UTC h t = t - localTZA h t False"

text \<open>
  The methods of \<open>Date.prototype\<close> that the program calls. A getter of an invalid date
  returns \<open>NaN\<close>; a setter leaves an invalid date invalid, makes the date invalid when
  its argument is \<open>NaN\<close>, and clips the new time value.
\<close>

definition getDate :: "host \<Rightarrow> jsnum \<Rightarrow> jsnum" where
  "getDate h d = (case d of None \<Rightarrow> None | Some t \<Rightarrow> Some (DateFromTime (LocalTime h t)))"

definition getMonth :: "host \<Rightarrow> jsnum \<Rightarrow> jsnum" where
  "getMonth h d = (case d of None \<Rightarrow> None | Some t \<Rightarrow> Some (MonthFromTime (LocalTime h t)))"

definition setDate :: "host \<Rightarrow> jsnum \<Rightarrow> jsnum \<Rightarrow> jsnum" where
  "setDate h d dt =
     (case d of
        None \<Rightarrow> None
      | Some t \<Rightarrow>
          (case dt of
             None \<Rightarrow> None
           | Some n \<Rightarrow>
               let lt = LocalTime h t
               in TimeClip (UTC h (MakeDate (MakeDay (YearFromTime lt) (MonthFromTime lt) n)
                                    (TimeWithinDay lt)))))"

definition setMonth :: "host \<Rightarrow> jsnum \<Rightarrow> jsnum \<Rightarrow> jsnum" where
  "setMonth h d m =
     (case d of
        None \<Rightarrow> None
      | Some t \<Rightarrow>
          (case m of
             None \<Rightarrow> None
           | Some n \<Rightarrow>
               let lt = LocalTime h t
               in TimeClip (UTC h (MakeDate (MakeDay (YearFromTime lt) n (DateFromTime lt))
                                    (TimeWithinDay lt)))))"

text \<open>\<open>setHours(0, 0, 0, 0)\<close>: the start of the local day.\<close>

definition setHours0 :: "host \<Rightarrow> jsnum \<Rightarrow> jsnum" where
  "setHours0 h d =
     (case d of None \<Rightarrow> None | Some t \<Rightarrow> TimeClip (UTC h (MakeDate (Day (LocalTime h t)) 0)))"

text \<open>Decimal digits, and \<open>toISOString().split('T')[0]\<close>: the UTC calendar date, the
  year with four digits, or with a sign and six digits outside 0 to 9999.\<close>

definition digits :: string where
  "digits = ''0123456789''"

fun show_nat :: "nat \<Rightarrow> string" where
  "show_nat n = (if n < 10 then [digits ! n] else show_nat (n div 10) @ [digits ! (n mod 10)])"

declare show_nat.simps [simp del]

definition pad :: "nat \<Rightarrow> nat \<Rightarrow> string" where
  "pad w n = replicate (w - length (show_nat n)) (CHR ''0'') @ show_nat n"

definition isoYear :: "int \<Rightarrow> string" where
  "isoYear y =
     (if 0 \<le> y \<and> y \<le> 9999 then pad 4 (nat y)
      else if y < 0 then ''-'' @ pad 6 (nat (- y))
      else ''+'' @ pad 6 (nat y))"

definition toISODate :: "time \<Rightarrow> string" where
  "toISODate t =
     isoYear (YearFromTime t) @ ''-'' @ pad 2 (nat (MonthFromTime t + 1)) @ ''-'' @ pad 2 (nat (DateFromTime t))"

section \<open>Utilities module\<close>

text \<open>
  Every failure of the store is a \<open>throw new Error(message)\<close>; the constructors are the
  messages. The specification's taxonomy groups them: the title, priority and date
  messages are validation errors, the two "not found" messages are not-found errors.
  \<open>RangeError\<close> is the host's own: the call stack is exhausted, or \<open>toISOString\<close> is
  called on an invalid date.
\<close>

datatype error =
  TitleRequired
  | TitleEmpty
  | InvalidPriority
  | InvalidDateFormat
  | TaskNotFound
  | ParentNotFound
  | RangeError

definition isValidationError :: "error \<Rightarrow> bool" where
  "isValidationError e = (e = TitleRequired \<or> e = TitleEmpty \<or> e = InvalidPriority \<or> e = InvalidDateFormat)"

definition isNotFoundError :: "error \<Rightarrow> bool" where
  "isNotFoundError e = (e = TaskNotFound \<or> e = ParentNotFound)"

text \<open>
  \<open>String.prototype.trim\<close> strips white space and line terminators. A character of the
  model is a code unit below 256; of these, the ones that \<open>trim\<close> strips are the space,
  the tab, the line feed, the vertical tab, the form feed, the carriage return and the
  no-break space.
\<close>

definition isSpace :: "char \<Rightarrow> bool" where
  "isSpace c =
     (c = CHR '' '' \<or> c = CHR 0x09 \<or> c = CHR 0x0A \<or> c = CHR 0x0B \<or> c = CHR 0x0C \<or> c = CHR 0x0D
      \<or> c = CHR 0xA0)"

definition trim :: "string \<Rightarrow> string" where
  "trim s = rev (dropWhile isSpace (rev (dropWhile isSpace s)))"

text \<open>\<open>generateId\<close>: \<open>task_\<close>, \<open>Date.now()\<close>, \<open>_\<close> and seven random characters.\<close>

definition generateId :: "host \<Rightarrow> string" where
  "generateId h =
     ''task_'' @ (if now h < 0 then ''-'' else []) @ show_nat (nat (abs (now h))) @ ''_'' @ randomSuffix h"

text \<open>\<open>sanitizeString\<close> writes the string as the text of an element and reads the
  element's markup back: the characters \<open>&\<close>, \<open><\<close> and \<open>>\<close> come back escaped.\<close>

definition escapeChar :: "char \<Rightarrow> string" where
  "escapeChar c =
     (if c = CHR ''&'' then ''&amp;'' else if c = CHR ''<'' then ''&lt;''
      else if c = CHR ''>'' then ''&gt;'' else [c])"

definition sanitizeString :: "string \<Rightarrow> string" where
  "sanitizeString s = concat (map escapeChar s)"

text \<open>\<open>truncate\<close> of the utilities.\<close>

definition truncate_str :: "string \<Rightarrow> nat \<Rightarrow> string" where
  "truncate_str s maxLength = (if s = [] \<or> length s \<le> maxLength then s else trim (take maxLength s))"

text \<open>\<open>validateDate\<close>: a falsy string gives \<open>null\<close>, an unparsable one throws.\<close>

definition validateDate :: "host \<Rightarrow> string \<Rightarrow> error + string option" where
  "validateDate h s =
     (if s = [] then Inr None
      else (case newDate h s of None \<Rightarrow> Inl InvalidDateFormat | Some t \<Rightarrow> Inr (Some s)))"

section \<open>Statistics module: calculateStatistics\<close>

record priority_counts =
  high :: nat
  medium :: nat
  low :: nat

record status_counts =
  activeCount :: nat
  completedCount :: nat

record statistics =
  total :: nat
  active :: nat
  completed :: nat
  overdue :: nat
  completionRate :: nat
  byPriority :: priority_counts
  byStatus :: status_counts
  dueToday :: nat
  dueThisWeek :: nat
  dueSoon :: nat
  noDueDate :: nat

text \<open>Comparisons of the time values of two dates: every comparison with \<open>NaN\<close> is
  false.\<close>

definition num_lt :: "jsnum \<Rightarrow> jsnum \<Rightarrow> bool" where
  "num_lt a b = (case a of None \<Rightarrow> False | Some x \<Rightarrow> (case b of None \<Rightarrow> False | Some y \<Rightarrow> x < y))"

definition num_le :: "jsnum \<Rightarrow> jsnum \<Rightarrow> bool" where
  "num_le a b = (case a of None \<Rightarrow> False | Some x \<Rightarrow> (case b of None \<Rightarrow> False | Some y \<Rightarrow> x \<le> y))"

definition num_ge :: "jsnum \<Rightarrow> jsnum \<Rightarrow> bool" where
  "num_ge a b = (case a of None \<Rightarrow> False | Some x \<Rightarrow> (case b of None \<Rightarrow> False | Some y \<Rightarrow> y \<le> x))"

definition num_gt :: "jsnum \<Rightarrow> jsnum \<Rightarrow> bool" where
  "num_gt a b = (case a of None \<Rightarrow> False | Some x \<Rightarrow> (case b of None \<Rightarrow> False | Some y \<Rightarrow> y < x))"

definition num_eq :: "jsnum \<Rightarrow> jsnum \<Rightarrow> bool" where
  "num_eq a b = (case a of None \<Rightarrow> False | Some x \<Rightarrow> (case b of None \<Rightarrow> False | Some y \<Rightarrow> x = y))"

text \<open>\<open>new Date(task.dueDate)\<close> followed by \<open>setHours(0, 0, 0, 0)\<close>.\<close>

definition dueDay :: "host \<Rightarrow> string \<Rightarrow> jsnum" where
  "dueDay h s = setHours0 h (newDate h s)"

definition countStatus :: "task \<Rightarrow> statistics \<Rightarrow> statistics" where
  "countStatus t st =
     (if status t = ''active'' then
        st\<lparr>active := active st + 1,
           byStatus := (byStatus st)\<lparr>activeCount := activeCount (byStatus st) + 1\<rparr>\<rparr>
      else if status t = ''completed'' then
        st\<lparr>completed := completed st + 1,
           byStatus := (byStatus st)\<lparr>completedCount := completedCount (byStatus st) + 1\<rparr>\<rparr>
      else st)"

definition countPriority :: "task \<Rightarrow> statistics \<Rightarrow> statistics" where
  "countPriority t st =
     (if priority t = ''high'' then
        st\<lparr>byPriority := (byPriority st)\<lparr>high := high (byPriority st) + 1\<rparr>\<rparr>
      else if priority t = ''medium'' then
        st\<lparr>byPriority := (byPriority st)\<lparr>medium := medium (byPriority st) + 1\<rparr>\<rparr>
      else if priority t = ''low'' then
        st\<lparr>byPriority := (byPriority st)\<lparr>low := low (byPriority st) + 1\<rparr>\<rparr>
      else st)"

text \<open>The checks on the due date of an active task, in the order of the source.
  The check "due today" adds to \<open>dueSoon\<close>, and so does the check "within three days"
  inside "due this week".\<close>

definition countOverdue :: "jsnum \<Rightarrow> jsnum \<Rightarrow> statistics \<Rightarrow> statistics" where
  "countOverdue d today st = (if num_lt d today then st\<lparr>overdue := overdue st + 1\<rparr> else st)"

definition countDueToday :: "jsnum \<Rightarrow> jsnum \<Rightarrow> statistics \<Rightarrow> statistics" where
  "countDueToday d today st =
     (if num_eq d today then st\<lparr>dueToday := dueToday st + 1, dueSoon := dueSoon st + 1\<rparr> else st)"

definition countDueThisWeek :: "jsnum \<Rightarrow> jsnum \<Rightarrow> jsnum \<Rightarrow> jsnum \<Rightarrow> statistics \<Rightarrow> statistics" where
  "countDueThisWeek d today weekFromNow threeDaysFromNow st =
     (if num_ge d today \<and> num_le d weekFromNow then
        (let st1 = st\<lparr>dueThisWeek := dueThisWeek st + 1\<rparr>
         in if num_le d threeDaysFromNow then st1\<lparr>dueSoon := dueSoon st1 + 1\<rparr> else st1)
      else st)"

definition countDue :: "host \<Rightarrow> jsnum \<Rightarrow> jsnum \<Rightarrow> jsnum \<Rightarrow> task \<Rightarrow> statistics \<Rightarrow> statistics" where
  "countDue h today weekFromNow threeDaysFromNow t st =
     (if status t = ''active'' then
        (case dueDate t of
           None \<Rightarrow> st\<lparr>noDueDate := noDueDate st + 1\<rparr>
         | Some s \<Rightarrow>
             if s = [] then st\<lparr>noDueDate := noDueDate st + 1\<rparr>
             else
               (let d = dueDay h s
                in countDueThisWeek d today weekFromNow threeDaysFromNow
                     (countDueToday d today (countOverdue d today st))))
      else st)"

definition countTask :: "host \<Rightarrow> jsnum \<Rightarrow> jsnum \<Rightarrow> jsnum \<Rightarrow> statistics \<Rightarrow> task \<Rightarrow> statistics" where
  "countTask h today weekFromNow threeDaysFromNow st t =
     countDue h today weekFromNow threeDaysFromNow t (countPriority t (countStatus t st))"

definition initialStatistics :: "task list \<Rightarrow> statistics" where
  "initialStatistics ts =
     \<lparr>total = length ts, active = 0, completed = 0, overdue = 0, completionRate = 0,
      byPriority = \<lparr>high = 0, medium = 0, low = 0\<rparr>,
      byStatus = \<lparr>activeCount = 0, completedCount = 0\<rparr>,
      dueToday = 0, dueThisWeek = 0, dueSoon = 0, noDueDate = 0\<rparr>"

definition calculateStatistics :: "host \<Rightarrow> task list \<Rightarrow> statistics" where
  "calculateStatistics h ts =
     (let today = setHours0 h (Some (now h));
          weekFromNow = setDate h today (num_add (getDate h today) 7);
          threeDaysFromNow = setDate h today (num_add (getDate h today) 3);
          st = foldl (countTask h today weekFromNow threeDaysFromNow) (initialStatistics ts) ts
      in if 0 < total st then st\<lparr>completionRate := roundPercent h (completed st) (total st)\<rparr> else st)"

section \<open>Storage module\<close>

text \<open>
  \<open>localStorage\<close> holds the application's document under one key, or nothing before the
  first use. The document is kept as the value that \<open>JSON.parse\<close> gives back; a
  document that does not parse is outside the model. Since every read parses the stored
  text anew, two reads never share an object, and the state is passed explicitly:
  each operation takes the world and returns its result (or the error it throws)
  together with the world it leaves behind.
\<close>

record world =
  blob :: "storage_data option"
  trace :: "event list"

type_synonym 'a op = "world \<Rightarrow> (error + 'a) \<times> world"

definition CURRENT_VERSION :: string where
  "CURRENT_VERSION = ''1.0.0''"

definition MAX_STORAGE_SIZE :: nat where
  "MAX_STORAGE_SIZE = 5 * 1024 * 1024"

text \<open>The tasks that are in the store: what \<open>getTasks\<close> reads.\<close>

definition persisted :: "world \<Rightarrow> task list" where
  "persisted w = (case blob w of None \<Rightarrow> [] | Some d \<Rightarrow> tasks d)"

text \<open>\<open>initStorage\<close> on an empty store writes the initial structure (this first, small
  write is taken to succeed).\<close>

definition initialData :: storage_data where
  "initialData =
     \<lparr>version = CURRENT_VERSION, tasks = [],
      settings = Some \<lparr>lastFilter = ''all'', sortBy = ''dueDate'', sortOrder = ''asc''\<rparr>,
      lastUpdated = None\<rparr>"

definition initStorage :: "world \<Rightarrow> storage_data \<times> world" where
  "initStorage w = (initialData, w\<lparr>blob := Some initialData\<rparr>)"

definition getData :: "world \<Rightarrow> storage_data \<times> world" where
  "getData w = (case blob w of None \<Rightarrow> initStorage w | Some d \<Rightarrow> (d, w))"

definition getTasks :: "world \<Rightarrow> task list \<times> world" where
  "getTasks w = (case getData w of (d, w1) \<Rightarrow> (tasks d, w1))"

text \<open>The filter of the first recovery strategy: a completed task with a completion
  time stays only if that time is later than thirty days ago.\<close>

definition keepRecent :: "jsnum \<Rightarrow> task \<Rightarrow> bool" where
  "keepRecent thirtyDaysAgo t =
     (if status t = ''completed'' \<and> completedAt t \<noteq> None then num_gt (completedAt t) thirtyDaysAgo
      else True)"

text \<open>
  \<open>saveData\<close>, \<open>handleQuotaExceeded\<close> and \<open>saveTasks\<close> call each other: a save that
  fails for lack of room starts the recovery, and the recovery saves. The first
  argument after the host counts the calls of \<open>saveData\<close> that the stack still has room
  for; when it is used up the host throws a \<open>RangeError\<close>, which no handler on the way
  catches (the recovery runs inside the \<open>catch\<close> block of \<open>saveData\<close>).
  The recovery reads the tasks from the store, not the ones that were to be saved.
\<close>

fun saveData :: "host \<Rightarrow> nat \<Rightarrow> storage_data \<Rightarrow> unit op"
  and handleQuotaExceeded :: "host \<Rightarrow> nat \<Rightarrow> unit op"
  and saveTasks :: "host \<Rightarrow> nat \<Rightarrow> task list \<Rightarrow> unit op"
where
  "saveData h 0 d w = (Inl RangeError, w)"
| "saveData h (Suc n) d w =
     (if MAX_STORAGE_SIZE < jsonLength h d \<or> setItemQuota h d then handleQuotaExceeded h n w
      else (Inr (), w\<lparr>blob := Some d\<rparr>))"
| "handleQuotaExceeded h n w =
     (case getTasks w of (ts, w1) \<Rightarrow>
        let thirtyDaysAgo = setDate h (Some (now h)) (num_add (getDate h (Some (now h))) (- 30));
            filtered = filter (keepRecent thirtyDaysAgo) ts
        in if length filtered < length ts then
             (case saveTasks h n filtered w1 of
                (Inl e, w2) \<Rightarrow> (Inl e, w2)
              | (Inr u, w2) \<Rightarrow>
                  (Inr (), w2\<lparr>trace := trace w2 @ [AlertRemoved (length ts - length filtered)]\<rparr>))
           else
             let shouldExport = confirm h (trace w1);
                 w2 = w1\<lparr>trace := trace w1 @ [ConfirmExport]\<rparr>;
                 w3 = (if shouldExport then w2\<lparr>trace := trace w2 @ [ExportTasks ts]\<rparr> else w2);
                 activeTasks = filter (\<lambda>t. status t = ''active'') ts
             in (case saveTasks h n activeTasks w3 of
                   (Inl e, w4) \<Rightarrow> (Inl e, w4)
                 | (Inr u, w4) \<Rightarrow>
                     (Inr (), w4\<lparr>trace := trace w4 @ [AlertCleared (length ts - length activeTasks)]\<rparr>)))"
| "saveTasks h n ts w =
     (case getData w of (d, w1) \<Rightarrow> saveData h n (d\<lparr>tasks := ts, lastUpdated := Some (now h)\<rparr>) w1)"

section \<open>Task management module\<close>

text \<open>
  The argument of \<open>createTask\<close>: an object that may hold any of these fields. A field
  that is missing, \<open>null\<close> or \<open>undefined\<close> is \<open>None\<close>.
\<close>

record taskData =
  d_title :: "string option"
  d_description :: "string option"
  d_priority :: "string option"
  d_tags :: "string list option"
  d_dueDate :: "string option"
  d_parentId :: "string option"
  d_recurring :: "recurring option"

text \<open>
  The patch of \<open>updateTask\<close>: the fields to update, each of them optional
  (\<open>None\<close> is \<open>undefined\<close>: the field is not in the patch). These are the fields a
  caller edits: the form's fields and the status. A due date or a recurrence rule in
  the patch may be \<open>null\<close>, which clears it. The status is any string.
\<close>

record updates =
  u_title :: "string option"
  u_description :: "string option"
  u_priority :: "string option"
  u_status :: "string option"
  u_tags :: "string list option"
  u_dueDate :: "string option option"
  u_recurring :: "recurring option option"

definition priorities :: "string list" where
  "priorities = [''low'', ''medium'', ''high'']"

definition orElse :: "'a option \<Rightarrow> 'a \<Rightarrow> 'a" where
  "orElse v d = (case v of None \<Rightarrow> d | Some x \<Rightarrow> x)"

definition createTask :: "host \<Rightarrow> taskData \<Rightarrow> task op" where
  "createTask h td w =
     (if \<not> truthy (d_title td) \<or> trim (the (d_title td)) = [] then (Inl TitleRequired, w)
      else
        (case (if truthy (d_dueDate td) then validateDate h (the (d_dueDate td)) else Inr None) of
           Inl e \<Rightarrow> (Inl e, w)
         | Inr due \<Rightarrow>
             let p = (if truthy (d_priority td) then the (d_priority td) else ''medium'');
                 t = \<lparr>taskId = generateId h,
                      title = truncate_str (sanitizeString (the (d_title td))) 200,
                      description =
                        (if truthy (d_description td) then sanitizeString (the (d_description td)) else []),
                      priority = (if p \<in> set priorities then p else ''medium''),
                      status = ''active'',
                      tags = orElse (d_tags td) [],
                      dueDate = due,
                      parentId = (if truthy (d_parentId td) then d_parentId td else None),
                      subtasks = Some [],
                      recurring = d_recurring td,
                      createdAt = now h,
                      updatedAt = now h,
                      completedAt = None\<rparr>
             in (case getTasks w of (ts, w1) \<Rightarrow>
                   (case saveTasks h (stackDepth h) (ts @ [t]) w1 of
                      (Inl e, w2) \<Rightarrow> (Inl e, w2)
                    | (Inr u, w2) \<Rightarrow> (Inr t, w2)))))"

definition getTaskById :: "string \<Rightarrow> world \<Rightarrow> task option \<times> world" where
  "getTaskById i w = (case getTasks w of (ts, w1) \<Rightarrow> (find (\<lambda>t. taskId t = i) ts, w1))"

text \<open>\<open>findIndex\<close>: the position of the first task with the identifier.\<close>

fun findIndex :: "string \<Rightarrow> task list \<Rightarrow> nat option" where
  "findIndex i [] = None"
| "findIndex i (t # ts) = (if taskId t = i then Some 0 else map_option Suc (findIndex i ts))"

text \<open>The validation of a patch, in the order of the source: title, description,
  priority, due date. It returns the patch as \<open>updateTask\<close> rewrites it in place.\<close>

definition validateUpdates :: "host \<Rightarrow> updates \<Rightarrow> error + updates" where
  "validateUpdates h u =
     (if u_title u \<noteq> None \<and> (the (u_title u) = [] \<or> trim (the (u_title u)) = []) then Inl TitleEmpty
      else
        let u1 = u\<lparr>u_title := map_option (\<lambda>s. truncate_str (sanitizeString s) 200) (u_title u),
                   u_description := map_option sanitizeString (u_description u)\<rparr>
        in if u_priority u1 \<noteq> None \<and> the (u_priority u1) \<notin> set priorities then Inl InvalidPriority
           else
             (case u_dueDate u1 of
                Some (Some s) \<Rightarrow>
                  (case validateDate h s of Inl e \<Rightarrow> Inl e | Inr d \<Rightarrow> Inr (u1\<lparr>u_dueDate := Some d\<rparr>))
              | _ \<Rightarrow> Inr u1))"

text \<open>The merge \<open>{ ...task, ...updates, updatedAt: now }\<close>.\<close>

definition mergeUpdates :: "host \<Rightarrow> task \<Rightarrow> updates \<Rightarrow> task" where
  "mergeUpdates h t u =
     t\<lparr>title := orElse (u_title u) (title t),
       description := orElse (u_description u) (description t),
       priority := orElse (u_priority u) (priority t),
       status := orElse (u_status u) (status t),
       tags := orElse (u_tags u) (tags t),
       dueDate := orElse (u_dueDate u) (dueDate t),
       recurring := orElse (u_recurring u) (recurring t),
       updatedAt := now h\<rparr>"

text \<open>The status change that follows the merge.\<close>

definition statusChange :: "host \<Rightarrow> updates \<Rightarrow> task \<Rightarrow> task" where
  "statusChange h u t =
     (if u_status u = Some ''completed'' \<and> completedAt t = None then t\<lparr>completedAt := Some (now h)\<rparr>
      else if u_status u = Some ''active'' then t\<lparr>completedAt := None\<rparr>
      else t)"

definition updateTask :: "host \<Rightarrow> string \<Rightarrow> updates \<Rightarrow> task op" where
  "updateTask h i u w =
     (case getTasks w of (ts, w1) \<Rightarrow>
        (case findIndex i ts of
           None \<Rightarrow> (Inl TaskNotFound, w1)
         | Some index \<Rightarrow>
             (case validateUpdates h u of
                Inl e \<Rightarrow> (Inl e, w1)
              | Inr u1 \<Rightarrow>
                  let t = statusChange h u1 (mergeUpdates h (ts ! index) u1)
                  in (case saveTasks h (stackDepth h) (ts[index := t]) w1 of
                        (Inl e, w2) \<Rightarrow> (Inl e, w2)
                      | (Inr x, w2) \<Rightarrow> (Inr t, w2)))))"

definition deleteTask :: "host \<Rightarrow> string \<Rightarrow> bool op" where
  "deleteTask h i w =
     (case getTasks w of (ts, w1) \<Rightarrow>
        let filteredTasks = filter (\<lambda>t. taskId t \<noteq> i) ts
        in if length filteredTasks = length ts then (Inl TaskNotFound, w1)
           else (case saveTasks h (stackDepth h) filteredTasks w1 of
                   (Inl e, w2) \<Rightarrow> (Inl e, w2)
                 | (Inr x, w2) \<Rightarrow> (Inr True, w2)))"

definition noUpdates :: updates where
  "noUpdates =
     \<lparr>u_title = None, u_description = None, u_priority = None, u_status = None,
      u_tags = None, u_dueDate = None, u_recurring = None\<rparr>"

definition toggled :: "task \<Rightarrow> string" where
  "toggled t = (if status t = ''active'' then ''completed'' else ''active'')"

definition toggleTaskStatus :: "host \<Rightarrow> string \<Rightarrow> task op" where
  "toggleTaskStatus h i w =
     (case getTaskById i w of
        (None, w1) \<Rightarrow> (Inl TaskNotFound, w1)
      | (Some t, w1) \<Rightarrow> updateTask h i (noUpdates\<lparr>u_status := Some (toggled t)\<rparr>) w1)"

text \<open>
  \<open>createSubtask\<close> reads the tasks, lets \<open>createTask\<close> read, extend and save them in
  its turn, and then saves the list it read first, with the parent changed.
\<close>

definition createSubtask :: "host \<Rightarrow> string \<Rightarrow> taskData \<Rightarrow> task op" where
  "createSubtask h p sd w =
     (case getTasks w of (ts, w1) \<Rightarrow>
        (case findIndex p ts of
           None \<Rightarrow> (Inl ParentNotFound, w1)
         | Some taskIndex \<Rightarrow>
             (case createTask h (sd\<lparr>d_parentId := Some p\<rparr>) w1 of
                (Inl e, w2) \<Rightarrow> (Inl e, w2)
              | (Inr subtask, w2) \<Rightarrow>
                  let parentTask = ts ! taskIndex;
                      parentTask1 =
                        parentTask\<lparr>subtasks := Some (orElse (subtasks parentTask) [] @ [taskId subtask]),
                                   updatedAt := now h\<rparr>
                  in (case saveTasks h (stackDepth h) (ts[taskIndex := parentTask1]) w2 of
                        (Inl e, w3) \<Rightarrow> (Inl e, w3)
                      | (Inr x, w3) \<Rightarrow> (Inr subtask, w3)))))"

definition getSubtasks :: "string \<Rightarrow> world \<Rightarrow> task list \<times> world" where
  "getSubtasks p w = (case getTasks w of (ts, w1) \<Rightarrow> (filter (\<lambda>t. parentId t = Some p) ts, w1))"

definition updateParentTaskProgress :: "host \<Rightarrow> string \<Rightarrow> unit op" where
  "updateParentTaskProgress h p w =
     (case getSubtasks p w of (sts, w1) \<Rightarrow>
        if sts = [] then (Inr (), w1)
        else if list_all (\<lambda>st. status st = ''completed'') sts then
          (case updateTask h p (noUpdates\<lparr>u_status := Some ''completed''\<rparr>) w1 of
             (Inl e, w2) \<Rightarrow> (Inl e, w2)
           | (Inr t, w2) \<Rightarrow> (Inr (), w2))
        else if list_ex (\<lambda>st. status st = ''completed'') sts then
          (case getTaskById p w1 of
             (Some parentTask, w2) \<Rightarrow>
               if status parentTask = ''completed'' then
                 (case updateTask h p (noUpdates\<lparr>u_status := Some ''active''\<rparr>) w2 of
                    (Inl e, w3) \<Rightarrow> (Inl e, w3)
                  | (Inr t, w3) \<Rightarrow> (Inr (), w3))
               else (Inr (), w2)
           | (None, w2) \<Rightarrow> (Inr (), w2))
        else (Inr (), w1))"

text \<open>
  \<open>calculateNextOccurrence\<close>. The destructuring \<open>{ frequency, interval = 1 }\<close> gives the
  interval the value 1 when the rule has none; an interval \<open>null\<close> stays \<open>null\<close> and adds
  0. An unknown frequency returns \<open>null\<close> before the date is formatted; formatting an
  invalid date throws.
\<close>

definition intervalValue :: "interval_field \<Rightarrow> int" where
  "intervalValue v = (case v of IntervalMissing \<Rightarrow> 1 | IntervalNull \<Rightarrow> 0 | IntervalNumber n \<Rightarrow> n)"

definition calculateNextOccurrence :: "host \<Rightarrow> task \<Rightarrow> error + string option" where
  "calculateNextOccurrence h t =
     (case recurring t of
        None \<Rightarrow> Inr None
      | Some r \<Rightarrow>
          if \<not> truthy (dueDate t) then Inr None
          else
            let currentDue = newDate h (the (dueDate t));
                n = intervalValue (interval r);
                nextDate =
                  (if frequency r = ''daily'' then
                     Some (setDate h currentDue (num_add (getDate h currentDue) n))
                   else if frequency r = ''weekly'' then
                     Some (setDate h currentDue (num_add (getDate h currentDue) (7 * n)))
                   else if frequency r = ''monthly'' then
                     Some (setMonth h currentDue (num_add (getMonth h currentDue) n))
                   else None)
            in (case nextDate of
                  None \<Rightarrow> Inr None
                | Some None \<Rightarrow> Inl RangeError
                | Some (Some d) \<Rightarrow> Inr (Some (toISODate d))))"

definition createNextRecurrence :: "host \<Rightarrow> task \<Rightarrow> task option op" where
  "createNextRecurrence h t w =
     (if recurring t = None then (Inr None, w)
      else
        (case calculateNextOccurrence h t of
           Inl e \<Rightarrow> (Inl e, w)
         | Inr nextDueDate \<Rightarrow>
             if \<not> truthy nextDueDate then (Inr None, w)
             else
               (case createTask h
                       \<lparr>d_title = Some (title t), d_description = Some (description t),
                        d_priority = Some (priority t), d_tags = Some (tags t),
                        d_dueDate = nextDueDate, d_parentId = None, d_recurring = recurring t\<rparr> w of
                  (Inl e, w1) \<Rightarrow> (Inl e, w1)
                | (Inr newTask, w1) \<Rightarrow> (Inr (Some newTask), w1))))"

definition toggleTaskStatusWithRecurrence :: "host \<Rightarrow> string \<Rightarrow> (task \<times> task option) op" where
  "toggleTaskStatusWithRecurrence h i w =
     (case getTaskById i w of
        (None, w1) \<Rightarrow> (Inl TaskNotFound, w1)
      | (Some t, w1) \<Rightarrow>
          let newStatus = toggled t
          in (case updateTask h i (noUpdates\<lparr>u_status := Some newStatus\<rparr>) w1 of
                (Inl e, w2) \<Rightarrow> (Inl e, w2)
              | (Inr updatedTask, w2) \<Rightarrow>
                  if newStatus = ''completed'' \<and> recurring t \<noteq> None \<and> \<not> truthy (parentId t) then
                    (case createNextRecurrence h t w2 of
                       (Inl e, w3) \<Rightarrow> (Inl e, w3)
                     | (Inr nextTask, w3) \<Rightarrow> (Inr (updatedTask, nextTask), w3))
                  else (Inr (updatedTask, None), w2)))"

section \<open>Properties to be proved, and example values\<close>

text \<open>The priority is one of the three the application knows.\<close>

definition knownPriority :: "task \<Rightarrow> bool" where
  "knownPriority t = (priority t \<in> set priorities)"

text \<open>The invariant of the data model: a completion time exactly on completed tasks.\<close>

definition completionConsistent :: "task \<Rightarrow> bool" where
  "completionConsistent t = ((completedAt t \<noteq> None) = (status t = ''completed''))"

text \<open>The operations of the task store, each with its arguments, and the world an
  operation leaves behind, whether it returns or throws.\<close>

datatype operation =
  Create taskData
  | Update string updates
  | ToggleStatus string
  | Delete string
  | CreateSubtask string taskData
  | UpdateParentTaskProgress string
  | CreateNextRecurrence task
  | ToggleStatusWithRecurrence string

fun perform :: "host \<Rightarrow> operation \<Rightarrow> world \<Rightarrow> world" where
  "perform h (Create td) w = snd (createTask h td w)"
| "perform h (Update i u) w = snd (updateTask h i u w)"
| "perform h (ToggleStatus i) w = snd (toggleTaskStatus h i w)"
| "perform h (Delete i) w = snd (deleteTask h i w)"
| "perform h (CreateSubtask p sd) w = snd (createSubtask h p sd w)"
| "perform h (UpdateParentTaskProgress p) w = snd (updateParentTaskProgress h p w)"
| "perform h (CreateNextRecurrence t) w = snd (createNextRecurrence h t w)"
| "perform h (ToggleStatusWithRecurrence i) w = snd (toggleTaskStatusWithRecurrence h i w)"

text \<open>A sequence of operations, each at its own moment of the host.\<close>

fun run :: "(host \<times> operation) list \<Rightarrow> world \<Rightarrow> world" where
  "run [] w = w"
| "run ((h, c) # cs) w = run cs (perform h c w)"

text \<open>A patch with the documented fields: its status, if it has one, is one of the two
  documented values. (The priority of a patch is checked by the code itself.)\<close>

definition documentedStatus :: "updates \<Rightarrow> bool" where
  "documentedStatus u = (u_status u = None \<or> u_status u = Some ''active'' \<or> u_status u = Some ''completed'')"

fun documented :: "operation \<Rightarrow> bool" where
  "documented (Update i u) = documentedStatus u"
| "documented (CreateNextRecurrence t) = True"
| "documented c = True"

definition emptyWorld :: world where
  "emptyWorld = \<lparr>blob = None, trace = []\<rparr>"

text \<open>The document that a save writes: the stored one with the tasks replaced.\<close>

definition documentWith :: "host \<Rightarrow> world \<Rightarrow> task list \<Rightarrow> storage_data" where
  "documentWith h w ts = (fst (getData w))\<lparr>tasks := ts, lastUpdated := Some (now h)\<rparr>"

text \<open>A save of the document fails for lack of room: it is longer than the maximum, or
  the store refuses it.\<close>

definition capacityError :: "host \<Rightarrow> storage_data \<Rightarrow> bool" where
  "capacityError h d = (MAX_STORAGE_SIZE < jsonLength h d \<or> setItemQuota h d)"

text \<open>
  The date \<open>n\<close> days after the time \<open>t\<close> on the local clock: the moment at which the
  clock reads what it reads at \<open>t\<close>, moved by \<open>n\<close> days of 24 hours. It is
  \<open>t + n * msPerDay\<close> less what the offset of local time has grown in between, so that
  on a host without daylight saving it is exactly \<open>n\<close> days after \<open>t\<close>; and it is an
  invalid date when it falls outside the range of time values.
\<close>

definition offsetGrowth :: "host \<Rightarrow> time \<Rightarrow> int \<Rightarrow> int" where
  "offsetGrowth h t n = localTZA h (LocalTime h t + n * msPerDay) False - localTZA h t True"

definition localDaysLater :: "host \<Rightarrow> time \<Rightarrow> int \<Rightarrow> jsnum" where
  "localDaysLater h t n = TimeClip (t + n * msPerDay - offsetGrowth h t n)"

text \<open>
  The recovery policy in the words of the specification. Thirty days ago is the date
  thirty days before now on the local clock. A completed task is old when its
  completion is not later than that (no completion is later than an invalid date). If
  there are old tasks, they are dropped and the user is told how many; otherwise the
  user is asked whether to export, all tasks are exported on a yes, and only the active
  tasks are kept.
\<close>

definition thirtyDaysAgo :: "host \<Rightarrow> jsnum" where
  "thirtyDaysAgo h = localDaysLater h (now h) (- 30)"




subsection \<open>An example host and example tasks\<close>

text \<open>
  A host for evaluating the model: it lives in UTC, its clock reads noon of
  2024-06-01, its parser reads the form \<open>YYYY-MM-DD\<close> as midnight UTC of that day, it
  compares strings by their character codes, it rounds the exact percentage, and its
  store has room for three tasks.
\<close>

fun compareStrings :: "string \<Rightarrow> string \<Rightarrow> int" where
  "compareStrings [] [] = 0"
| "compareStrings [] (b # bs) = - 1"
| "compareStrings (a # as) [] = 1"
| "compareStrings (a # as) (b # bs) =
     (if (of_char a :: nat) < of_char b then - 1
      else if (of_char b :: nat) < of_char a then 1
      else compareStrings as bs)"

fun digitValue :: "char list \<Rightarrow> char \<Rightarrow> nat option" where
  "digitValue [] c = None"
| "digitValue (d # ds) c = (if c = d then Some 0 else map_option Suc (digitValue ds c))"

fun readNat :: "nat \<Rightarrow> string \<Rightarrow> nat option" where
  "readNat acc [] = Some acc"
| "readNat acc (c # cs) =
     (case digitValue digits c of None \<Rightarrow> None | Some v \<Rightarrow> readNat (10 * acc + v) cs)"

definition parseIsoDate :: "string \<Rightarrow> time option" where
  "parseIsoDate s =
     (if length s = 10 \<and> s ! 4 = CHR ''-'' \<and> s ! 7 = CHR ''-'' then
        (case (readNat 0 (take 4 s), readNat 0 (take 2 (drop 5 s)), readNat 0 (drop 8 s)) of
           (Some y, Some m, Some d) \<Rightarrow>
             if 1 \<le> m \<and> m \<le> 12 \<and> 1 \<le> d
                \<and> int d \<le> MakeDay (int y) (int m) 1 - MakeDay (int y) (int m - 1) 1
             then Some (MakeDate (MakeDay (int y) (int m - 1) (int d)) 0)
             else None
         | _ \<Rightarrow> None)
      else None)"

definition exampleHost :: host where
  "exampleHost =
     \<lparr>now = 1717243200000, localTZA = (\<lambda>t isUTC. 0), parseDate = parseIsoDate,
      localeCompare = compareStrings, randomSuffix = ''k3x9q2a'',
      roundPercent = (\<lambda>c n. (200 * c + n) div (2 * n)),
      jsonLength = (\<lambda>d. 100 * length (tasks d)),
      setItemQuota = (\<lambda>d. 3 < length (tasks d)),
      confirm = (\<lambda>tr. True), stackDepth = 8\<rparr>"

definition exampleTask :: "string \<Rightarrow> string \<Rightarrow> string option \<Rightarrow> task" where
  "exampleTask i p d =
     \<lparr>taskId = i, title = i, description = [], priority = p, status = ''active'', tags = [],
      dueDate = d, parentId = None, subtasks = Some [], recurring = None,
      createdAt = 1717000000000, updatedAt = 1717000000000, completedAt = None\<rparr>"


definition exampleWorld :: "task list \<Rightarrow> world" where
  "exampleWorld ts = \<lparr>blob = Some (initialData\<lparr>tasks := ts\<rparr>), trace = []\<rparr>"

text \<open>The rank of a task's priority (0 when the priority is unknown), and the name of
  a rank.\<close>

definition priorityRank :: "task \<Rightarrow> int" where
  "priorityRank t = (case priorityOrder (priority t) of None \<Rightarrow> 0 | Some r \<Rightarrow> r)"


text \<open>
  "Due soon" in the words of the specification: an active task whose due date,
  normalized to the start of its day, lies between the start of today and \<open>n\<close> days
  from today, both inclusive. \<open>n\<close> days from today is the date \<open>n\<close> days after the start
  of today on the local clock. A task is due today when its normalized due date is the
  start of today.
\<close>

definition startOfToday :: "host \<Rightarrow> jsnum" where
  "startOfToday h = setHours0 h (Some (now h))"

definition daysFromToday :: "host \<Rightarrow> int \<Rightarrow> jsnum" where
  "daysFromToday h n =
     (case startOfToday h of None \<Rightarrow> None | Some t \<Rightarrow> localDaysLater h t n)"

definition dueWithinDays :: "host \<Rightarrow> int \<Rightarrow> task \<Rightarrow> bool" where
  "dueWithinDays h n t =
     (status t = ''active'' \<and>
      (case dueDate t of
         None \<Rightarrow> False
       | Some s \<Rightarrow>
           s \<noteq> [] \<and> num_ge (dueDay h s) (startOfToday h) \<and> num_le (dueDay h s) (daysFromToday h n)))"

definition isDueToday :: "host \<Rightarrow> task \<Rightarrow> bool" where
  "isDueToday h t =
     (status t = ''active'' \<and>
      (case dueDate t of None \<Rightarrow> False | Some s \<Rightarrow> s \<noteq> [] \<and> num_eq (dueDay h s) (startOfToday h)))"

definition recurringTask :: "string \<Rightarrow> string option \<Rightarrow> recurring \<Rightarrow> task" where
  "recurringTask i d r = (exampleTask i ''medium'' d)\<lparr>recurring := Some r\<rparr>"

text \<open>The number of days of a month (0 is January) of a year.\<close>

definition daysInMonth :: "int \<Rightarrow> int \<Rightarrow> int" where
  "daysInMonth y m =
     (if m = 1 then 28 + InLeapYear y
      else if m = 3 \<or> m = 5 \<or> m = 8 \<or> m = 10 then 30
      else 31)"

text \<open>
  What \<open>calculateNextOccurrence\<close> returns for a new date: \<open>toISOString\<close> throws on an
  invalid date, and gives the UTC calendar date of a valid one.
\<close>

definition isoDateOf :: "jsnum \<Rightarrow> error + string option" where
  "isoDateOf d = (case d of None \<Rightarrow> Inl RangeError | Some u \<Rightarrow> Inr (Some (toISODate u)))"

text \<open>
  Two more hosts. The first is in London in 2024: local time is UTC, and one hour ahead
  of it from 31 March, 01:00 UTC, to 27 October, 01:00 UTC; the local hour that the
  clocks skip is read with the offset before the change, the local hour that they
  repeat also. The second is five hours behind UTC all year.
\<close>

definition londonHost :: host where
  "londonHost = exampleHost
     \<lparr>localTZA := (\<lambda>t isUTC.
        if isUTC then (if 1711846800000 \<le> t \<and> t < 1729990800000 then 3600000 else 0)
        else (if 1711850400000 \<le> t \<and> t < 1729994400000 then 3600000 else 0))\<rparr>"

definition bogotaHost :: host where
  "bogotaHost = exampleHost\<lparr>localTZA := (\<lambda>t isUTC. - 18000000)\<rparr>"

section \<open>Sorting by priority\<close>

text \<open>On tasks of known priority the comparator is the difference of the ranks, so
  the sort is the library's stable sort by a key: the negated rank for \<open>asc\<close>, the
  rank itself for any other order.\<close>

lemma sort_insert_insort_key:
  "(\<And>y. y \<in> set ys \<Longrightarrow> (0 < sortCompare cmp x y) = (f y < f x)) \<Longrightarrow>
   sort_insert cmp x ys = insort_key f x ys"
  by (induction ys) (auto simp: not_less)

lemma array_sort_sort_key:
  "(\<And>x y. x \<in> set xs \<Longrightarrow> y \<in> set xs \<Longrightarrow> (0 < sortCompare cmp x y) = (f y < f x)) \<Longrightarrow>
   array_sort cmp xs = sort_key f xs"
proof (induction xs)
  case Nil
  then show ?case by (simp add: array_sort_def)
next
  case (Cons a xs)
  have ih: "array_sort cmp xs = sort_key f xs" using Cons by simp
  have "sort_insert cmp a (sort_key f xs) = insort_key f a (sort_key f xs)"
    by (rule sort_insert_insort_key) (use Cons.prems in simp)
  then show ?case using ih by (simp add: array_sort_def)
qed

lemma knownPriority_cases:
  "knownPriority t \<Longrightarrow> priority t = ''low'' \<or> priority t = ''medium'' \<or> priority t = ''high''"
  by (auto simp: knownPriority_def priorities_def)

lemma priorityOrder_known:
  "knownPriority t \<Longrightarrow> priorityOrder (priority t) = Some (priorityRank t)"
  by (auto simp: priorityRank_def priorityOrder_def dest: knownPriority_cases)

lemma compare_priority_asc:
  assumes "knownPriority a" "knownPriority b"
  shows "sortCompare (compareTasks h ''priority'' ''asc'') a b = priorityRank b - priorityRank a"
  using assms
  by (simp add: sortCompare_def compareTasks_def num_sub_def priorityOrder_known)

lemma compare_priority_desc:
  assumes "knownPriority a" "knownPriority b"
  shows "sortCompare (compareTasks h ''priority'' ''desc'') a b = priorityRank a - priorityRank b"
  using assms
  by (simp add: sortCompare_def compareTasks_def num_sub_def num_neg_def priorityOrder_known)

lemma sortTasks_priority_asc:
  assumes "list_all knownPriority ts"
  shows "sortTasks h ts ''priority'' ''asc'' = sort_key (\<lambda>t. - priorityRank t) ts"
  unfolding sortTasks_def
proof (rule array_sort_sort_key)
  fix x y assume "x \<in> set ts" "y \<in> set ts"
  then have "knownPriority x" "knownPriority y" using assms by (auto simp: list_all_iff)
  then show "(0 < sortCompare (compareTasks h ''priority'' ''asc'') x y) = (- priorityRank y < - priorityRank x)"
    by (simp add: compare_priority_asc)
qed

lemma sortTasks_priority_desc:
  assumes "list_all knownPriority ts"
  shows "sortTasks h ts ''priority'' ''desc'' = sort_key priorityRank ts"
  unfolding sortTasks_def
proof (rule array_sort_sort_key)
  fix x y assume "x \<in> set ts" "y \<in> set ts"
  then have "knownPriority x" "knownPriority y" using assms by (auto simp: list_all_iff)
  then show "(0 < sortCompare (compareTasks h ''priority'' ''desc'') x y) = (priorityRank y < priorityRank x)"
    by (simp add: compare_priority_desc)
qed




lemma filter_distinct_key:
  "distinct (map f zs) \<Longrightarrow> k \<in> set zs \<Longrightarrow> filter (\<lambda>x. f k = f x) zs = [k]"
proof (induction zs)
  case Nil
  then show ?case by simp
next
  case (Cons z zs)
  show ?case
  proof (cases "k = z")
    case True
    have "filter (\<lambda>x. f z = f x) zs = []"
      using Cons.prems(1) by (auto simp: filter_empty_conv)
    then show ?thesis using True by simp
  next
    case False
    then have "k \<in> set zs" using Cons.prems by simp
    moreover have "f k \<noteq> f z" using Cons.prems(1) \<open>k \<in> set zs\<close> by (auto simp: image_iff)
    ultimately show ?thesis using Cons by simp
  qed
qed

lemma sort_key_unique_distinct:
  assumes "mset ys = mset xs" and "distinct (map f xs)" and "sorted (map f ys)"
  shows "sort_key f xs = ys"
proof (rule properties_for_sort_key)
  show "mset ys = mset xs" by fact
  show "sorted (map f ys)" by fact
  have d: "distinct (map f ys)"
  proof -
    have "mset (map f ys) = mset (map f xs)" using assms(1) by simp
    then show ?thesis using assms(2) by (metis mset_eq_imp_distinct_iff)
  qed
  fix k assume k: "k \<in> set ys"
  then have k': "k \<in> set xs" using assms(1) by (metis mset_eq_setD)
  show "filter (\<lambda>x. f k = f x) ys = filter (\<lambda>x. f k = f x) xs"
    using filter_distinct_key [OF d k] filter_distinct_key [OF assms(2) k'] by simp
qed





lemma priority_exampleTask:
  "priority (exampleTask i p d) = p"
  by (simp add: exampleTask_def)

lemma exampleTask_eq_iff:
  "(exampleTask i p d = exampleTask i' p' d') = (i = i' \<and> p = p' \<and> d = d')"
  by (auto simp: exampleTask_def)

text \<open>
  Claim C1, as the code has it. For three tasks of priority high, medium and low, given
  in any order, \<open>sortTasks\<close> by priority returns high, medium, low when the order is
  \<open>asc\<close> and low, medium, high when it is \<open>desc\<close>: the comparator ranks the second task
  against the first, so that \<open>asc\<close>, the default, puts the high priority first
  (README: "High priority tasks appear first").
\<close>

theorem sort_priority_three:
  assumes "priority a = ''high''" and "priority b = ''medium''" and "priority c = ''low''"
    and "mset ts = {#a, b, c#}"
  shows "sortTasks h ts ''priority'' ''asc'' = [a, b, c]
       \<and> sortTasks h ts ''priority'' ''desc'' = [c, b, a]"
proof -
  have ka: "knownPriority a" and kb: "knownPriority b" and kc: "knownPriority c"
    using assms(1-3) by (simp_all add: knownPriority_def priorities_def)
  have ra: "priorityRank a = 3" and rb: "priorityRank b = 2" and rc: "priorityRank c = 1"
    using assms(1-3) by (simp_all add: priorityRank_def priorityOrder_def)
  have "set ts = {a, b, c}" using assms(4) by (metis mset_eq_setD set_mset_mset set_mset_add_mset_insert set_mset_empty)
  then have known: "list_all knownPriority ts" using ka kb kc by (simp add: list_all_iff)
  have "mset (map priorityRank ts) = mset [3, 2, 1]"
    using arg_cong [OF assms(4), of "image_mset priorityRank"] ra rb rc by simp
  then have "distinct (map priorityRank ts) = distinct [3, 2, 1 :: int]"
    by (rule mset_eq_imp_distinct_iff)
  then have d1: "distinct (map priorityRank ts)" by simp
  then have d2: "distinct (map (\<lambda>t. - priorityRank t) ts)"
    by (simp add: distinct_map inj_on_def)
  have asc: "sort_key (\<lambda>t. - priorityRank t) ts = [a, b, c]"
    by (rule sort_key_unique_distinct) (use assms(4) d2 ra rb rc in simp_all)
  have desc: "sort_key priorityRank ts = [c, b, a]"
    by (rule sort_key_unique_distinct) (use assms(4) d1 ra rb rc in \<open>simp_all add: add_mset_commute\<close>)
  show ?thesis
    using asc desc by (simp add: sortTasks_priority_asc [OF known] sortTasks_priority_desc [OF known])
qed

theorem sort_priority_three_witness:
  "sortTasks exampleHost
     [exampleTask ''c'' ''low'' None, exampleTask ''a'' ''high'' None, exampleTask ''b'' ''medium'' None]
     ''priority'' ''asc''
   = [exampleTask ''a'' ''high'' None, exampleTask ''b'' ''medium'' None, exampleTask ''c'' ''low'' None]
   \<and> sortTasks exampleHost
     [exampleTask ''c'' ''low'' None, exampleTask ''a'' ''high'' None, exampleTask ''b'' ''medium'' None]
     ''priority'' ''desc''
   = [exampleTask ''c'' ''low'' None, exampleTask ''b'' ''medium'' None, exampleTask ''a'' ''high'' None]"
  using sort_priority_three [of "exampleTask ''a'' ''high'' None" "exampleTask ''b'' ''medium'' None"
      "exampleTask ''c'' ''low'' None"
      "[exampleTask ''c'' ''low'' None, exampleTask ''a'' ''high'' None, exampleTask ''b'' ''medium'' None]"
      exampleHost]
  by (simp add: priority_exampleTask add_mset_commute)

text \<open>The scenario as the specification words it fails: on the input high, medium, low
  the order \<open>asc\<close> does not give low, medium, high.\<close>

theorem sort_priority_three_counterexample:
  "\<not> (sortTasks exampleHost
        [exampleTask ''a'' ''high'' None, exampleTask ''b'' ''medium'' None, exampleTask ''c'' ''low'' None]
        ''priority'' ''asc''
      = [exampleTask ''c'' ''low'' None, exampleTask ''b'' ''medium'' None, exampleTask ''a'' ''high'' None]
      \<and> sortTasks exampleHost
        [exampleTask ''a'' ''high'' None, exampleTask ''b'' ''medium'' None, exampleTask ''c'' ''low'' None]
        ''priority'' ''desc''
      = [exampleTask ''a'' ''high'' None, exampleTask ''b'' ''medium'' None, exampleTask ''c'' ''low'' None])"
  by (simp add: sortTasks_def array_sort_def sortCompare_def compareTasks_def num_sub_def
      num_neg_def priorityOrder_def priority_exampleTask exampleTask_eq_iff)




section \<open>Dates\<close>

lemma MonthFromTime_range: "0 \<le> MonthFromTime t \<and> MonthFromTime t \<le> 11"
  by (simp add: MonthFromTime_def Let_def)

lemma MakeDay_current:
  "MakeDay (YearFromTime t) (MonthFromTime t) (DateFromTime t + n) = Day t + n"
proof -
  have "MonthFromTime t div 12 = 0" and "MonthFromTime t mod 12 = MonthFromTime t"
    using MonthFromTime_range [of t] by simp_all
  then show ?thesis
    by (simp add: MakeDay_def DateFromTime_def DayWithinYear_def)
qed

lemma MakeDate_Day: "MakeDate (Day t + n) (TimeWithinDay t) = t + n * msPerDay"
  by (simp add: MakeDate_def Day_def TimeWithinDay_def algebra_simps)

text \<open>\<open>d.setDate(d.getDate() + n)\<close> moves the reading of the local clock by exactly \<open>n\<close>
  days of 24 hours.\<close>

lemma localDaysLater_UTC: "TimeClip (UTC h (LocalTime h t + n * msPerDay)) = localDaysLater h t n"
proof -
  have "UTC h (LocalTime h t + n * msPerDay) = t + n * msPerDay - offsetGrowth h t n"
    by (simp add: offsetGrowth_def UTC_def LocalTime_def)
  then show ?thesis by (simp add: localDaysLater_def)
qed

lemma setDate_getDate:
  "setDate h (Some t) (num_add (getDate h (Some t)) n) = localDaysLater h t n"
  by (simp add: setDate_def getDate_def num_add_def Let_def MakeDay_current MakeDate_Day
      localDaysLater_UTC)

lemma setDate_invalid: "setDate h None n = None"
  by (simp add: setDate_def)

text \<open>On a host whose offset never changes the date itself moves by \<open>n\<close> days.\<close>

lemma localDaysLater_fixed:
  assumes "\<And>t u. localTZA h t u = c"
  shows "localDaysLater h t n = TimeClip (t + n * msPerDay)"
  by (simp add: localDaysLater_def offsetGrowth_def assms)

lemma exampleHost_fixed: "localTZA exampleHost t u = 0"
  by (simp add: exampleHost_def)

section \<open>Statistics\<close>

lemma dueSoon_countStatus: "dueSoon (countStatus t st) = dueSoon st"
  by (simp add: countStatus_def)

lemma dueSoon_countPriority: "dueSoon (countPriority t st) = dueSoon st"
  by (simp add: countPriority_def)

lemma dueSoon_countOverdue: "dueSoon (countOverdue d today st) = dueSoon st"
  by (simp add: countOverdue_def)

lemma dueSoon_countDueToday:
  "dueSoon (countDueToday d today st) = dueSoon st + (if num_eq d today then 1 else 0)"
  by (simp add: countDueToday_def)

lemma dueSoon_countDueThisWeek:
  "dueSoon (countDueThisWeek d today week three st)
     = dueSoon st + (if num_ge d today \<and> num_le d week \<and> num_le d three then 1 else 0)"
  by (simp add: countDueThisWeek_def Let_def)

lemma daysFromToday_eq:
  "setDate h (startOfToday h) (num_add (getDate h (startOfToday h)) n) = daysFromToday h n"
  by (cases "startOfToday h") (simp_all add: daysFromToday_def setDate_invalid setDate_getDate)

lemma dueSoon_countTask:
  "dueSoon (countTask h (startOfToday h) (daysFromToday h 7) (daysFromToday h 3) st t)
     = dueSoon st + (if dueWithinDays h 3 t \<and> dueWithinDays h 7 t then 1 else 0)
       + (if isDueToday h t then 1 else 0)"
  by (auto simp: countTask_def countDue_def dueSoon_countStatus dueSoon_countPriority
      dueSoon_countOverdue dueSoon_countDueToday dueSoon_countDueThisWeek
      dueWithinDays_def isDueToday_def Let_def split: option.splits)

lemma dueSoon_foldl:
  "dueSoon (foldl (countTask h (startOfToday h) (daysFromToday h 7) (daysFromToday h 3)) st ts)
     = dueSoon st + length (filter (\<lambda>t. dueWithinDays h 3 t \<and> dueWithinDays h 7 t) ts)
       + length (filter (isDueToday h) ts)"
proof (induction ts arbitrary: st)
  case Nil
  then show ?case by simp
next
  case (Cons t ts)
  show ?case by (simp add: Cons.IH dueSoon_countTask)
qed

lemma dueSoon_calculateStatistics:
  "dueSoon (calculateStatistics h ts)
     = length (filter (\<lambda>t. dueWithinDays h 3 t \<and> dueWithinDays h 7 t) ts)
       + length (filter (isDueToday h) ts)"
proof -
  have init: "dueSoon (initialStatistics ts) = 0" by (simp add: initialStatistics_def)
  have "dueSoon (calculateStatistics h ts)
      = dueSoon (foldl (countTask h (startOfToday h) (daysFromToday h 7) (daysFromToday h 3))
                   (initialStatistics ts) ts)"
    by (simp add: calculateStatistics_def Let_def daysFromToday_eq [unfolded startOfToday_def]
        startOfToday_def)
  then show ?thesis by (simp add: dueSoon_foldl init)
qed

text \<open>When three days from today is neither before today nor after a week from today, a
  task due within three days is due within the week, and a task due today is due within
  three days.\<close>

lemma dueWithinDays_week:
  assumes "num_le (daysFromToday h 3) (daysFromToday h 7)" and "dueWithinDays h 3 t"
  shows "dueWithinDays h 7 t"
  using assms
  by (auto simp: dueWithinDays_def num_le_def num_ge_def split: option.splits)

lemma isDueToday_within:
  assumes "num_le (startOfToday h) (daysFromToday h 3)" and "isDueToday h t"
  shows "dueWithinDays h 3 t"
  using assms
  by (auto simp: dueWithinDays_def isDueToday_def num_le_def num_ge_def num_eq_def split: option.splits)

text \<open>The two conditions hold on every host whose offset from UTC is a day at most, as
  long as a week from today is a valid date.\<close>

lemma TimeClip_Some: "TimeClip x = Some y \<Longrightarrow> y = x \<and> \<bar>x\<bar> \<le> 8640000000000000"
  by (simp add: TimeClip_def split: if_splits)

lemma offsetGrowth_bound:
  assumes "\<And>t u. \<bar>localTZA h t u\<bar> \<le> msPerDay"
  shows "\<bar>offsetGrowth h t n\<bar> \<le> 2 * msPerDay"
  using assms [of "LocalTime h t + n * msPerDay" False] assms [of t True]
  by (simp add: offsetGrowth_def)

lemma daysFromToday_ordered:
  assumes "\<And>t u. \<bar>localTZA h t u\<bar> \<le> msPerDay" and "daysFromToday h 7 \<noteq> None"
  shows "num_le (startOfToday h) (daysFromToday h 3)
       \<and> num_le (daysFromToday h 3) (daysFromToday h 7)"
proof -
  obtain w7 where w: "daysFromToday h 7 = Some w7" using assms(2) by blast
  then obtain t0 where s: "startOfToday h = Some t0"
    by (cases "startOfToday h") (simp_all add: daysFromToday_def)
  have "\<bar>t0\<bar> \<le> 8640000000000000"
    using s by (auto simp: startOfToday_def setHours0_def dest: TimeClip_Some)
  moreover have w7: "w7 = t0 + 7 * msPerDay - offsetGrowth h t0 7" "\<bar>w7\<bar> \<le> 8640000000000000"
    using w TimeClip_Some [of "t0 + 7 * msPerDay - offsetGrowth h t0 7" w7]
    by (simp_all add: daysFromToday_def s localDaysLater_def)
  moreover note offsetGrowth_bound [OF assms(1), of t0 3] offsetGrowth_bound [OF assms(1), of t0 7]
  moreover have "0 < msPerDay" by (simp add: msPerDay_def)
  ultimately have "t0 \<le> t0 + 3 * msPerDay - offsetGrowth h t0 3"
    and "t0 + 3 * msPerDay - offsetGrowth h t0 3 \<le> t0 + 7 * msPerDay - offsetGrowth h t0 7"
    and "\<bar>t0 + 3 * msPerDay - offsetGrowth h t0 3\<bar> \<le> 8640000000000000"
    and "\<bar>t0 + 7 * msPerDay - offsetGrowth h t0 7\<bar> \<le> 8640000000000000"
    by linarith+
  then show ?thesis
    by (simp add: daysFromToday_def s localDaysLater_def TimeClip_def num_le_def)
qed

lemma startOfToday_exampleHost: "startOfToday exampleHost = Some 1717200000000"
  by (simp add: startOfToday_def setHours0_def exampleHost_def UTC_def LocalTime_def
      MakeDate_def Day_def msPerDay_def TimeClip_def)

lemma daysFromToday_exampleHost: "daysFromToday exampleHost n = TimeClip (1717200000000 + n * msPerDay)"
  by (simp add: daysFromToday_def startOfToday_exampleHost localDaysLater_fixed [OF exampleHost_fixed])

lemma parse_example_today: "parseIsoDate ''2024-06-01'' = Some 1717200000000"
  by (simp add: parseIsoDate_def digits_def MakeDay_def MakeDate_def DayFromYear_def
      InLeapYear_def monthStart_def msPerDay_def)

text \<open>
  Claim C4. \<open>calculateStatistics\<close> counts in \<open>dueSoon\<close> every active task that is due
  within three days (and within the week, the check being nested in the one for the
  week) once, and every active task that is due today once more: the branch "due today"
  and the branch "within three days" both add to the field. So on a host on which three
  days from today is neither before today nor after a week from today (every host
  whose offset from UTC is a day at most), the field is the number of the active tasks
  due within three days plus the number of those among them that are due today. It is
  the number the specification describes only when no active task is due today; a
  single active task due today gives 2.
\<close>

theorem dueSoon_counts_today_twice:
  "dueSoon (calculateStatistics h ts)
     = length (filter (\<lambda>t. dueWithinDays h 3 t \<and> dueWithinDays h 7 t) ts)
       + length (filter (isDueToday h) ts)
   \<and> (num_le (startOfToday h) (daysFromToday h 3) \<and> num_le (daysFromToday h 3) (daysFromToday h 7) \<longrightarrow>
        dueSoon (calculateStatistics h ts)
          = length (filter (dueWithinDays h 3) ts)
            + length (filter (\<lambda>t. dueWithinDays h 3 t \<and> isDueToday h t) ts))"
proof (intro conjI impI)
  show g: "dueSoon (calculateStatistics h ts)
     = length (filter (\<lambda>t. dueWithinDays h 3 t \<and> dueWithinDays h 7 t) ts)
       + length (filter (isDueToday h) ts)"
    by (rule dueSoon_calculateStatistics)
  assume a: "num_le (startOfToday h) (daysFromToday h 3) \<and> num_le (daysFromToday h 3) (daysFromToday h 7)"
  have "(dueWithinDays h 3 t \<and> dueWithinDays h 7 t) = dueWithinDays h 3 t" for t
    using a dueWithinDays_week [of h t] by blast
  moreover have "(dueWithinDays h 3 t \<and> isDueToday h t) = isDueToday h t" for t
    using a isDueToday_within [of h t] by blast
  ultimately show "dueSoon (calculateStatistics h ts)
      = length (filter (dueWithinDays h 3) ts)
        + length (filter (\<lambda>t. dueWithinDays h 3 t \<and> isDueToday h t) ts)"
    using g by simp
qed

theorem dueSoon_counts_today_twice_witness:
  "dueSoon (calculateStatistics exampleHost [exampleTask ''a'' ''low'' (Some ''2024-06-01'')]) = 2"
proof -
  let ?t = "exampleTask ''a'' ''low'' (Some ''2024-06-01'')"
  have "dueDay exampleHost ''2024-06-01'' = Some 1717200000000"
    by (simp add: dueDay_def newDate_def exampleHost_def parse_example_today setHours0_def UTC_def
        LocalTime_def MakeDate_def Day_def msPerDay_def TimeClip_def)
  then have d: "dueWithinDays exampleHost 3 ?t" "isDueToday exampleHost ?t"
    by (simp_all add: dueWithinDays_def isDueToday_def exampleTask_def startOfToday_exampleHost
        daysFromToday_exampleHost TimeClip_def num_ge_def num_le_def num_eq_def msPerDay_def)
  have h: "num_le (startOfToday exampleHost) (daysFromToday exampleHost 3)
      \<and> num_le (daysFromToday exampleHost 3) (daysFromToday exampleHost 7)"
    by (simp add: startOfToday_exampleHost daysFromToday_exampleHost TimeClip_def num_le_def msPerDay_def)
  show ?thesis
    using dueSoon_counts_today_twice [of exampleHost "[?t]", THEN conjunct2, rule_format, OF h] d
    by simp
qed

section \<open>Storage\<close>

lemma getData_cases:
  "getData w = (case blob w of None \<Rightarrow> (initialData, w\<lparr>blob := Some initialData\<rparr>) | Some d \<Rightarrow> (d, w))"
  by (simp add: getData_def initStorage_def split: option.splits)

lemma fst_getTasks: "fst (getTasks w) = persisted w"
  by (simp add: getTasks_def getData_cases persisted_def initialData_def split: option.splits)

lemma persisted_getTasks: "persisted (snd (getTasks w)) = persisted w"
  by (simp add: getTasks_def getData_cases persisted_def initialData_def split: option.splits)

lemma trace_getTasks: "trace (snd (getTasks w)) = trace w"
  by (simp add: getTasks_def getData_cases split: option.splits)

lemma getTasks_eq: "getTasks w = (ts, w1) \<Longrightarrow> ts = persisted w \<and> persisted w1 = persisted w \<and> trace w1 = trace w"
  using fst_getTasks [of w] persisted_getTasks [of w] trace_getTasks [of w] by simp

lemma snd_getTasks: "snd (getTasks w) = snd (getData w)"
  by (simp add: getTasks_def split: prod.splits)

lemma getData_eq:
  "getData w = (d, w1) \<Longrightarrow> blob w1 = Some d \<and> tasks d = persisted w \<and> trace w1 = trace w"
  by (auto simp: getData_cases persisted_def initialData_def split: option.splits)

lemma getData_again: "getData (snd (getData w)) = getData w"
  by (simp add: getData_cases split: option.splits)


declare saveTasks.simps [simp del] handleQuotaExceeded.simps [simp del]

text \<open>The three saving functions, by induction along their calls: the only error is the
  exhausted stack, and a property that holds of all stored tasks and of all tasks to be
  saved holds of all stored tasks afterwards (the recovery only removes tasks).\<close>

lemma save_errors:
  "fst (saveData h n d w) = Inl e \<longrightarrow> e = RangeError"
  "fst (handleQuotaExceeded h n w) = Inl e \<longrightarrow> e = RangeError"
  "fst (saveTasks h n ts w) = Inl e \<longrightarrow> e = RangeError"
proof (induction h n d w and h n w and h n ts w rule: saveData_handleQuotaExceeded_saveTasks.induct)
  case (1 h d w)
  then show ?case by simp
next
  case (2 h n d w)
  then show ?case by simp
next
  case (3 h n w)
  obtain ts w1 where g: "getTasks w = (ts, w1)" by (cases "getTasks w")
  show ?case
    using "3.IH" [OF g [symmetric] refl refl]
    by (auto simp: handleQuotaExceeded.simps g Let_def split: prod.splits sum.splits if_splits)
next
  case (4 h n ts w)
  obtain d w1 where g: "getData w = (d, w1)" by (cases "getData w")
  show ?case using "4.IH" [OF g [symmetric]] by (simp add: saveTasks.simps g)
qed

lemma saveTasks_error: "fst (saveTasks h n ts w) = Inl e \<Longrightarrow> e = RangeError"
  using save_errors(3) by blast

lemma save_preserves:
  "list_all P (tasks d) \<longrightarrow> list_all P (persisted w) \<longrightarrow> list_all P (persisted (snd (saveData h n d w)))"
  "list_all P (persisted w) \<longrightarrow> list_all P (persisted (snd (handleQuotaExceeded h n w)))"
  "list_all P ts \<longrightarrow> list_all P (persisted w) \<longrightarrow> list_all P (persisted (snd (saveTasks h n ts w)))"
proof (induction h n d w and h n w and h n ts w rule: saveData_handleQuotaExceeded_saveTasks.induct)
  case (1 h d w)
  then show ?case by simp
next
  case (2 h n d w)
  then show ?case by (simp add: persisted_def)
next
  case (3 h n w)
  obtain ts w1 where g: "getTasks w = (ts, w1)" by (cases "getTasks w")
  note e = getTasks_eq [OF g]
  let ?f = "filter (keepRecent (setDate h (Some (now h)) (num_add (getDate h (Some (now h))) (- 30)))) ts"
  let ?w3 = "if confirm h (trace w1) then w1\<lparr>trace := trace w1 @ [ConfirmExport, ExportTasks ts]\<rparr>
             else w1\<lparr>trace := trace w1 @ [ConfirmExport]\<rparr>"
  let ?a = "filter (\<lambda>t. status t = ''active'') ts"
  show ?case
  proof
    assume a: "list_all P (persisted w)"
    then have pts: "list_all P ts" and pw1: "list_all P (persisted w1)" using e by simp_all
    have pf: "list_all P ?f" and pa: "list_all P ?a" using pts by (simp_all add: list_all_iff)
    have pw3: "list_all P (persisted ?w3)" using pw1 by (simp add: persisted_def)
    show "list_all P (persisted (snd (handleQuotaExceeded h n w)))"
    proof (cases "length ?f < length ts")
      case True
      have "list_all P (persisted (snd (saveTasks h n ?f w1)))"
        using "3.IH"(1) [OF g [symmetric] refl refl True] pf pw1 by simp
      then show ?thesis
        using True
        by (cases "saveTasks h n ?f w1")
          (auto simp: handleQuotaExceeded.simps g Let_def persisted_def split: sum.splits)
    next
      case False
      have "list_all P (persisted (snd (saveTasks h n ?a ?w3)))"
        using "3.IH"(2) [OF g [symmetric] refl refl False refl refl refl refl] pa pw3
        by (simp split: if_splits)
      then show ?thesis
        using False
        by (cases "saveTasks h n ?a ?w3")
          (auto simp: handleQuotaExceeded.simps g Let_def persisted_def split: sum.splits if_splits)
    qed
  qed
next
  case (4 h n ts w)
  obtain d w1 where g: "getData w = (d, w1)" by (cases "getData w")
  have "persisted w1 = persisted w" using getData_eq [OF g] by (simp add: persisted_def)
  then show ?case using "4.IH" [OF g [symmetric]] by (simp add: saveTasks.simps g)
qed

lemma saveTasks_preserves:
  "list_all P ts \<Longrightarrow> list_all P (persisted w) \<Longrightarrow> list_all P (persisted (snd (saveTasks h n ts w)))"
  using save_preserves(3) by blast

text \<open>A save that fits writes the tasks.\<close>

lemma saveTasks_fits:
  assumes "\<not> capacityError h (documentWith h w ts)"
  shows "saveTasks h (Suc n) ts w = (Inr (), \<lparr>blob = Some (documentWith h w ts), trace = trace w\<rparr>)"
proof -
  obtain d w1 where g: "getData w = (d, w1)" by (cases "getData w")
  have "w1\<lparr>blob := Some (d\<lparr>tasks := ts, lastUpdated := Some (now h)\<rparr>)\<rparr>
      = \<lparr>blob = Some (d\<lparr>tasks := ts, lastUpdated := Some (now h)\<rparr>), trace = trace w\<rparr>"
    using getData_eq [OF g] by simp
  then show ?thesis
    using assms by (simp add: saveTasks.simps g documentWith_def capacityError_def)
qed

section \<open>Recovery from a full store\<close>






lemma documentWith_getTasks: "documentWith h (snd (getTasks w)) ts = documentWith h w ts"
  by (simp add: documentWith_def snd_getTasks getData_again)












section \<open>Create, update and delete\<close>

lemma saveTasks_Inl: "saveTasks h n ts w = (Inl e, w') \<Longrightarrow> e = RangeError"
  using saveTasks_error [of h n ts w e] by simp

lemma findIndex_Some:
  "findIndex i ts = Some k \<Longrightarrow> k < length ts \<and> taskId (ts ! k) = i \<and> find (\<lambda>t. taskId t = i) ts = Some (ts ! k)"
  by (induction ts arbitrary: k) (auto split: if_splits)

lemma findIndex_None: "(findIndex i ts = None) = (find (\<lambda>t. taskId t = i) ts = None)"
  by (induction ts) auto

lemma find_findIndex:
  "find (\<lambda>t. taskId t = i) ts = Some t \<Longrightarrow> \<exists>k. findIndex i ts = Some k \<and> ts ! k = t"
  by (induction ts) (auto split: if_splits)

lemma validateDate_error: "validateDate h s = Inl e \<Longrightarrow> e = InvalidDateFormat"
  by (auto simp: validateDate_def split: if_splits option.splits)


lemma validateUpdates_status: "validateUpdates h u = Inr u1 \<Longrightarrow> u_status u1 = u_status u"
  by (auto simp: validateUpdates_def Let_def split: if_splits option.splits sum.splits)


text \<open>How each of the three operations ends.\<close>

lemma createTask_cases:
  "createTask h td w = (r, w') \<Longrightarrow>
     (r = Inl TitleRequired \<and> w' = w) \<or> (r = Inl InvalidDateFormat \<and> w' = w)
     \<or> (r = Inl RangeError) \<or> (\<exists>t. r = Inr t)"
  by (auto simp: createTask_def Let_def split: if_splits sum.splits prod.splits
      dest: saveTasks_Inl validateDate_error)

lemma updateTask_cases:
  assumes "updateTask h i u w = (r, w')"
  shows "(r = Inl TaskNotFound \<and> findIndex i (persisted w) = None \<and> w' = snd (getTasks w))
       \<or> (\<exists>e. r = Inl e \<and> validateUpdates h u = Inl e \<and> w' = snd (getTasks w))
       \<or> (r = Inl RangeError)
       \<or> (\<exists>k u1. findIndex i (persisted w) = Some k \<and> validateUpdates h u = Inr u1
            \<and> r = Inr (statusChange h u1 (mergeUpdates h (persisted w ! k) u1))
            \<and> (r, w') = (case saveTasks h (stackDepth h)
                                 ((persisted w)[k := statusChange h u1 (mergeUpdates h (persisted w ! k) u1)])
                                 (snd (getTasks w)) of
                            (Inl e, w2) \<Rightarrow> (Inl e, w2) | (Inr x, w2) \<Rightarrow> (r, w2)))"
proof -
  obtain ts w1 where g: "getTasks w = (ts, w1)" by (cases "getTasks w")
  have ts: "ts = persisted w" using getTasks_eq [OF g] by simp
  show ?thesis
    using assms
    by (auto simp: updateTask_def g ts Let_def split: option.splits sum.splits prod.splits
        dest: saveTasks_Inl)
qed

lemma deleteTask_cases:
  "deleteTask h i w = (r, w') \<Longrightarrow>
     (r = Inl TaskNotFound \<and> w' = snd (getTasks w)) \<or> r = Inl RangeError \<or> r = Inr True"
  by (auto simp: deleteTask_def Let_def split: if_splits sum.splits prod.splits dest: saveTasks_Inl)





text \<open>\<open>updateTask\<close> returns when the task exists, the patch is valid, the stack has room
  for a call and the store has room for the document.\<close>

lemma updateTask_returns:
  assumes "findIndex i (persisted w) = Some k" and "validateUpdates h u = Inr u1"
    and "stackDepth h = Suc n"
    and "\<not> capacityError h (documentWith h w
            ((persisted w)[k := statusChange h u1 (mergeUpdates h (persisted w ! k) u1)]))"
  shows "updateTask h i u w =
           (Inr (statusChange h u1 (mergeUpdates h (persisted w ! k) u1)),
            \<lparr>blob = Some (documentWith h w
                      ((persisted w)[k := statusChange h u1 (mergeUpdates h (persisted w ! k) u1)])),
             trace = trace w\<rparr>)"
proof -
  obtain ts w1 where g: "getTasks w = (ts, w1)" by (cases "getTasks w")
  have ts: "ts = persisted w" and tr: "trace w1 = trace w" using getTasks_eq [OF g] by simp_all
  have w1: "w1 = snd (getTasks w)" using g by simp
  have dw: "documentWith h w1 xs = documentWith h w xs" for xs
    unfolding w1 by (rule documentWith_getTasks)
  show ?thesis
    using saveTasks_fits [of h w1 _ n] assms
    by (simp add: updateTask_def g ts Let_def dw tr)
qed

lemma validateUpdates_status_only:
  "validateUpdates h (noUpdates\<lparr>u_status := x\<rparr>) = Inr (noUpdates\<lparr>u_status := x\<rparr>)"
  by (simp add: validateUpdates_def noUpdates_def Let_def)

lemma exampleWorld_simps:
  "persisted (exampleWorld ts) = ts" "trace (exampleWorld ts) = []"
  "documentWith h (exampleWorld ts) xs = initialData\<lparr>tasks := xs, lastUpdated := Some (now h)\<rparr>"
  by (simp_all add: persisted_def exampleWorld_def documentWith_def getData_cases)

lemma exampleHost_room:
  "length xs \<le> 3 \<Longrightarrow> \<not> capacityError exampleHost (d\<lparr>tasks := xs, lastUpdated := l\<rparr>)"
  by (simp add: capacityError_def exampleHost_def MAX_STORAGE_SIZE_def)

lemma exampleTask_simps:
  "taskId (exampleTask i p d) = i" "status (exampleTask i p d) = ''active''"
  "completedAt (exampleTask i p d) = None" "dueDate (exampleTask i p d) = d"
  "parentId (exampleTask i p d) = None" "recurring (exampleTask i p d) = None"
  "title (exampleTask i p d) = i"
  by (simp_all add: exampleTask_def)


text \<open>
  Claim C5. When \<open>createTask\<close>, \<open>updateTask\<close> or \<open>deleteTask\<close> throws one of the
  validation errors (title required, title empty, invalid priority, invalid date
  format) or one of the not-found errors, the tasks in the store are the tasks that
  were there before the call: each of these errors is thrown before anything is saved.
\<close>

theorem errors_persist_nothing:
  assumes "isValidationError e \<or> isNotFoundError e"
  shows "(fst (createTask h td w) = Inl e \<longrightarrow> persisted (snd (createTask h td w)) = persisted w)
       \<and> (fst (updateTask h i u w) = Inl e \<longrightarrow> persisted (snd (updateTask h i u w)) = persisted w)
       \<and> (fst (deleteTask h i w) = Inl e \<longrightarrow> persisted (snd (deleteTask h i w)) = persisted w)"
proof -
  have ne: "e \<noteq> RangeError"
    using assms by (auto simp: isValidationError_def isNotFoundError_def)
  have c: "fst (createTask h td w) = Inl e \<Longrightarrow> persisted (snd (createTask h td w)) = persisted w"
    using createTask_cases [OF surjective_pairing, of h td w] ne
    by auto
  have u: "fst (updateTask h i u w) = Inl e \<Longrightarrow> persisted (snd (updateTask h i u w)) = persisted w"
    using updateTask_cases [OF surjective_pairing, of h i u w] ne
    by (auto simp: persisted_getTasks)
  have d: "fst (deleteTask h i w) = Inl e \<Longrightarrow> persisted (snd (deleteTask h i w)) = persisted w"
    using deleteTask_cases [OF surjective_pairing, of h i w] ne
    by (auto simp: persisted_getTasks)
  show ?thesis using c u d by blast
qed

theorem errors_persist_nothing_witness:
  "fst (createTask exampleHost
          \<lparr>d_title = Some ''   '', d_description = None, d_priority = None, d_tags = None,
           d_dueDate = None, d_parentId = None, d_recurring = None\<rparr>
          (exampleWorld [exampleTask ''a'' ''low'' None])) = Inl TitleRequired
   \<and> persisted (snd (createTask exampleHost
          \<lparr>d_title = Some ''   '', d_description = None, d_priority = None, d_tags = None,
           d_dueDate = None, d_parentId = None, d_recurring = None\<rparr>
          (exampleWorld [exampleTask ''a'' ''low'' None]))) = [exampleTask ''a'' ''low'' None]
   \<and> fst (updateTask exampleHost ''a'' (noUpdates\<lparr>u_priority := Some ''urgent''\<rparr>)
          (exampleWorld [exampleTask ''a'' ''low'' None])) = Inl InvalidPriority
   \<and> persisted (snd (updateTask exampleHost ''a'' (noUpdates\<lparr>u_priority := Some ''urgent''\<rparr>)
          (exampleWorld [exampleTask ''a'' ''low'' None]))) = [exampleTask ''a'' ''low'' None]
   \<and> fst (deleteTask exampleHost ''b'' (exampleWorld [exampleTask ''a'' ''low'' None])) = Inl TaskNotFound
   \<and> persisted (snd (deleteTask exampleHost ''b'' (exampleWorld [exampleTask ''a'' ''low'' None])))
       = [exampleTask ''a'' ''low'' None]"
proof -
  let ?w = "exampleWorld [exampleTask ''a'' ''low'' None]"
  let ?td = "\<lparr>d_title = Some ''   '', d_description = None, d_priority = None, d_tags = None,
           d_dueDate = None, d_parentId = None, d_recurring = None\<rparr>"
  have p: "persisted ?w = [exampleTask ''a'' ''low'' None]"
    by (simp add: persisted_def exampleWorld_def)
  have g: "getTasks ?w = ([exampleTask ''a'' ''low'' None], ?w)"
    by (simp add: getTasks_def getData_cases exampleWorld_def)
  have i: "taskId (exampleTask ''a'' ''low'' None) = ''a''" by (simp add: exampleTask_def)
  have c: "fst (createTask exampleHost ?td ?w) = Inl TitleRequired"
    by (simp add: createTask_def truthy_def trim_def isSpace_def)
  have u: "fst (updateTask exampleHost ''a'' (noUpdates\<lparr>u_priority := Some ''urgent''\<rparr>) ?w) = Inl InvalidPriority"
    by (simp add: updateTask_def g i validateUpdates_def noUpdates_def priorities_def Let_def)
  have d: "fst (deleteTask exampleHost ''b'' ?w) = Inl TaskNotFound"
    by (simp add: deleteTask_def g i Let_def)
  have v1: "isValidationError TitleRequired \<or> isNotFoundError TitleRequired"
    and v2: "isValidationError InvalidPriority \<or> isNotFoundError InvalidPriority"
    and v3: "isValidationError TaskNotFound \<or> isNotFoundError TaskNotFound"
    by (simp_all add: isValidationError_def isNotFoundError_def)
  show ?thesis
    using errors_persist_nothing [OF v1, where h = exampleHost and td = ?td and w = ?w]
      errors_persist_nothing [OF v2, where h = exampleHost and w = ?w and i = "''a''"
        and u = "noUpdates\<lparr>u_priority := Some ''urgent''\<rparr>"]
      errors_persist_nothing [OF v3, where h = exampleHost and w = ?w and i = "''b''"]
      c u d p
    by simp
qed





section \<open>Recurrence\<close>

lemma getTaskById_eq:
  "getTaskById i w = (find (\<lambda>t. taskId t = i) (persisted w), snd (getTasks w))"
  using fst_getTasks [of w] by (auto simp: getTaskById_def split: prod.splits)

lemma toISODate_nonempty: "toISODate t \<noteq> []"
  by (simp add: toISODate_def)

lemma calculateNextOccurrence_Some:
  "calculateNextOccurrence h t = Inr (Some s) \<Longrightarrow>
     s \<noteq> [] \<and> recurring t \<noteq> None \<and> truthy (dueDate t)
     \<and> frequency (the (recurring t)) \<in> {''daily'', ''weekly'', ''monthly''}"
  by (auto simp: calculateNextOccurrence_def Let_def toISODate_nonempty
      split: option.splits if_splits)

lemma calculateNextOccurrence_None:
  "calculateNextOccurrence h t = Inr None \<Longrightarrow>
     recurring t = None \<or> \<not> truthy (dueDate t)
     \<or> frequency (the (recurring t)) \<notin> {''daily'', ''weekly'', ''monthly''}"
  by (auto simp: calculateNextOccurrence_def Let_def split: option.splits if_splits)

lemma createTask_Inr:
  assumes "createTask h td w = (Inr t, w')"
  shows "status t = ''active'' \<and> completedAt t = None
       \<and> parentId t = (if truthy (d_parentId td) then d_parentId td else None)
       \<and> (if truthy (d_dueDate td) then validateDate h (the (d_dueDate td)) else Inr None) = Inr (dueDate t)"
  using assms
  by (auto simp: createTask_def Let_def split: if_splits sum.splits prod.splits)

lemma validateDate_Inr: "validateDate h s = Inr d \<Longrightarrow> s \<noteq> [] \<Longrightarrow> d = Some s"
  by (auto simp: validateDate_def split: option.splits)

lemma createNextRecurrence_Inr:
  assumes "createNextRecurrence h t w = (Inr nx, w')"
  shows "(nx \<noteq> None) = (recurring t \<noteq> None \<and> truthy (dueDate t)
            \<and> frequency (the (recurring t)) \<in> {''daily'', ''weekly'', ''monthly''})
       \<and> (case nx of None \<Rightarrow> True
           | Some n \<Rightarrow> calculateNextOccurrence h t = Inr (dueDate n) \<and> status n = ''active''
                       \<and> completedAt n = None \<and> parentId n = None)"
proof (cases "recurring t = None")
  case True
  then show ?thesis using assms by (simp add: createNextRecurrence_def)
next
  case False
  show ?thesis
  proof (cases "calculateNextOccurrence h t")
    case (Inl e)
    then show ?thesis using assms False by (simp add: createNextRecurrence_def)
  next
    case (Inr d)
    show ?thesis
    proof (cases d)
      case None
      then have "nx = None" using assms False Inr by (simp add: createNextRecurrence_def truthy_def)
      then show ?thesis using calculateNextOccurrence_None [of h t] Inr None False by auto
    next
      case (Some s)
      note f = calculateNextOccurrence_Some [OF Inr [unfolded Some]]
      then have tr: "truthy (Some s)" by (simp add: truthy_def)
      let ?td = "\<lparr>d_title = Some (title t), d_description = Some (description t),
                  d_priority = Some (priority t), d_tags = Some (tags t),
                  d_dueDate = Some s, d_parentId = None, d_recurring = recurring t\<rparr>"
      obtain r w1 where c: "createTask h ?td w = (r, w1)" by (cases "createTask h ?td w")
      obtain n where r: "r = Inr n" and nx: "nx = Some n"
        using assms False Inr Some tr c by (cases r) (auto simp: createNextRecurrence_def)
      have "validateDate h s = Inr (dueDate n)"
        using createTask_Inr [OF c [unfolded r]] tr by simp
      then have "dueDate n = Some s" using validateDate_Inr f by blast
      then show ?thesis
        using createTask_Inr [OF c [unfolded r]] f nx Inr Some by (simp add: truthy_def)
    qed
  qed
qed

lemma toggle_cases:
  assumes "find (\<lambda>t. taskId t = i) (persisted w) = Some t"
    and "toggleTaskStatusWithRecurrence h i w = (Inr (ut, nx), w')"
  shows "\<exists>w2. updateTask h i (noUpdates\<lparr>u_status := Some (toggled t)\<rparr>) (snd (getTasks w)) = (Inr ut, w2)
          \<and> (if status t = ''active'' \<and> recurring t \<noteq> None \<and> \<not> truthy (parentId t)
              then createNextRecurrence h t w2 = (Inr nx, w') else nx = None)"
  using assms
  by (auto simp: toggleTaskStatusWithRecurrence_def getTaskById_eq Let_def toggled_def
      split: prod.splits sum.splits if_splits)

text \<open>
  Claim C6, as the code has it. Let \<open>toggleTaskStatusWithRecurrence\<close> return for an
  existing task. The returned next task is not null exactly when the task was active
  (so that the toggle completed it), carries a recurrence rule whose frequency is
  daily, weekly or monthly, has a due date, and has no parent: \<open>createNextRecurrence\<close>
  returns null for a task without a due date and for an unknown frequency. In
  particular the next task is null for every subtask. A next task is active, has no
  parent and is due at the next occurrence of the toggled task.
\<close>

theorem toggle_recurrence:
  assumes "find (\<lambda>t. taskId t = i) (persisted w) = Some t"
    and "fst (toggleTaskStatusWithRecurrence h i w) = Inr (ut, nx)"
  shows "(nx \<noteq> None) =
           (status t = ''active'' \<and> recurring t \<noteq> None \<and> \<not> truthy (parentId t)
            \<and> truthy (dueDate t)
            \<and> frequency (the (recurring t)) \<in> {''daily'', ''weekly'', ''monthly''})
       \<and> (case nx of None \<Rightarrow> True
           | Some n \<Rightarrow> calculateNextOccurrence h t = Inr (dueDate n) \<and> status n = ''active''
                       \<and> parentId n = None)"
proof -
  obtain w' where r: "toggleTaskStatusWithRecurrence h i w = (Inr (ut, nx), w')"
    using assms(2) by (cases "toggleTaskStatusWithRecurrence h i w") simp
  obtain w2 where
    c: "if status t = ''active'' \<and> recurring t \<noteq> None \<and> \<not> truthy (parentId t)
        then createNextRecurrence h t w2 = (Inr nx, w') else nx = None"
    using toggle_cases [OF assms(1) r] by blast
  show ?thesis
  proof (cases "status t = ''active'' \<and> recurring t \<noteq> None \<and> \<not> truthy (parentId t)")
    case True
    then have "createNextRecurrence h t w2 = (Inr nx, w')" using c by simp
    from createNextRecurrence_Inr [OF this] True show ?thesis
      by (auto split: option.splits)
  next
    case False
    then have "nx = None" using c by simp
    then show ?thesis using False by auto
  qed
qed

text \<open>\<open>createTask\<close> returns the new task when the title is not blank, the due date
  parses, the stack has room for a call and the store has room for the document.\<close>

lemma createTask_returns:
  assumes "truthy (d_title td)" and "trim (the (d_title td)) \<noteq> []"
    and "(if truthy (d_dueDate td) then validateDate h (the (d_dueDate td)) else Inr None) = Inr due"
    and "stackDepth h = Suc n"
    and "\<And>t. \<not> capacityError h (documentWith h w (persisted w @ [t]))"
  shows "\<exists>t. createTask h td w
               = (Inr t, \<lparr>blob = Some (documentWith h w (persisted w @ [t])), trace = trace w\<rparr>)
             \<and> dueDate t = due"
proof -
  obtain ts w1 where g: "getTasks w = (ts, w1)" by (cases "getTasks w")
  have ts: "ts = persisted w" and tr: "trace w1 = trace w" using getTasks_eq [OF g] by simp_all
  have w1: "w1 = snd (getTasks w)" using g by simp
  have dw: "documentWith h w1 xs = documentWith h w xs" for xs
    unfolding w1 by (rule documentWith_getTasks)
  have s: "saveTasks h (Suc n) (persisted w @ [t]) w1
      = (Inr (), \<lparr>blob = Some (documentWith h w (persisted w @ [t])), trace = trace w\<rparr>)" for t
    using saveTasks_fits [of h w1 "persisted w @ [t]" n] assms(5) [of t] by (simp add: dw tr)
  show ?thesis
    using assms(1-4) by (simp add: createTask_def g ts Let_def s)
qed

lemma toISODate_example: "toISODate 1717286400000 = ''2024-06-02''"
  by (simp add: toISODate_def YearFromTime_def YearFromDay_def Day_def msPerDay_def
      year_search.simps DayFromYear_def MonthFromTime_def DayWithinYear_def InLeapYear_def
      DateFromTime_def monthStart_def isoYear_def pad_def show_nat.simps digits_def)

lemma parse_example_next: "parseIsoDate ''2024-06-02'' = Some 1717286400000"
  by (simp add: parseIsoDate_def digits_def MakeDay_def MakeDate_def DayFromYear_def
      InLeapYear_def monthStart_def msPerDay_def)

lemma recurringTask_simps:
  "taskId (recurringTask i d r) = i" "status (recurringTask i d r) = ''active''"
  "completedAt (recurringTask i d r) = None" "dueDate (recurringTask i d r) = d"
  "parentId (recurringTask i d r) = None" "recurring (recurringTask i d r) = Some r"
  "title (recurringTask i d r) = i" "description (recurringTask i d r) = []"
  "priority (recurringTask i d r) = ''medium''" "tags (recurringTask i d r) = []"
  by (simp_all add: recurringTask_def exampleTask_def)

lemma nextOccurrence_example:
  "calculateNextOccurrence exampleHost
     (recurringTask i (Some ''2024-06-01'') \<lparr>frequency = ''daily'', interval = IntervalNumber 1\<rparr>)
   = Inr (Some ''2024-06-02'')"
proof -
  have p: "newDate exampleHost ''2024-06-01'' = Some 1717200000000"
    by (simp add: newDate_def exampleHost_def parse_example_today TimeClip_def)
  have n: "setDate exampleHost (Some 1717200000000) (num_add (getDate exampleHost (Some 1717200000000)) 1)
      = Some 1717286400000"
    unfolding setDate_getDate localDaysLater_fixed [OF exampleHost_fixed]
    by (simp add: TimeClip_def msPerDay_def)
  show ?thesis
    by (simp add: calculateNextOccurrence_def recurringTask_simps truthy_def p Let_def
        intervalValue_def n toISODate_example)
qed

lemma nextOccurrence_no_dueDate:
  "calculateNextOccurrence h (recurringTask i None r) = Inr None"
  by (simp add: calculateNextOccurrence_def recurringTask_simps truthy_def)

lemma toggle_example_update:
  "updateTask exampleHost ''r'' (noUpdates\<lparr>u_status := Some ''completed''\<rparr>)
       (exampleWorld [recurringTask ''r'' d r])
   = (Inr ((recurringTask ''r'' d r)
             \<lparr>status := ''completed'', updatedAt := 1717243200000, completedAt := Some 1717243200000\<rparr>),
      \<lparr>blob = Some (initialData
           \<lparr>tasks := [(recurringTask ''r'' d r)
                        \<lparr>status := ''completed'', updatedAt := 1717243200000,
                          completedAt := Some 1717243200000\<rparr>],
             lastUpdated := Some 1717243200000\<rparr>),
       trace = []\<rparr>)"
proof -
  let ?w = "exampleWorld [recurringTask ''r'' d r]"
  let ?u = "noUpdates\<lparr>u_status := Some ''completed''\<rparr>"
  have k: "findIndex ''r'' (persisted ?w) = Some 0"
    by (simp add: exampleWorld_simps recurringTask_simps)
  have sd: "stackDepth exampleHost = Suc 7" by (simp add: exampleHost_def)
  have fit: "\<not> capacityError exampleHost (documentWith exampleHost ?w ((persisted ?w)[j := x]))" for j x
    unfolding exampleWorld_simps by (rule exampleHost_room) (simp only: length_list_update, simp)
  have m: "statusChange exampleHost ?u (mergeUpdates exampleHost (persisted ?w ! 0) ?u)
      = (recurringTask ''r'' d r)
          \<lparr>status := ''completed'', updatedAt := 1717243200000, completedAt := Some 1717243200000\<rparr>"
    by (simp add: exampleWorld_simps statusChange_def mergeUpdates_def noUpdates_def orElse_def
        recurringTask_def exampleTask_def exampleHost_def)
  have n: "now exampleHost = 1717243200000" by (simp add: exampleHost_def)
  have "updateTask exampleHost ''r'' ?u ?w
      = (Inr (statusChange exampleHost ?u (mergeUpdates exampleHost (persisted ?w ! 0) ?u)),
         \<lparr>blob = Some (documentWith exampleHost ?w
              ((persisted ?w)[0 := statusChange exampleHost ?u (mergeUpdates exampleHost (persisted ?w ! 0) ?u)])),
          trace = trace ?w\<rparr>)"
    by (rule updateTask_returns [OF k validateUpdates_status_only sd fit])
  then show ?thesis
    unfolding m by (simp add: exampleWorld_simps n)
qed

theorem toggle_recurrence_witness:
  "snd (projr (fst (toggleTaskStatusWithRecurrence exampleHost ''r''
       (exampleWorld [recurringTask ''r'' (Some ''2024-06-01'') \<lparr>frequency = ''daily'', interval = IntervalNumber 1\<rparr>]))))
     \<noteq> None
   \<and> map_option dueDate (snd (projr (fst (toggleTaskStatusWithRecurrence exampleHost ''r''
       (exampleWorld [recurringTask ''r'' (Some ''2024-06-01'') \<lparr>frequency = ''daily'', interval = IntervalNumber 1\<rparr>])))))
     = Some (Some ''2024-06-02'')"
proof -
  let ?r = "\<lparr>frequency = ''daily'', interval = IntervalNumber 1\<rparr>"
  let ?t = "recurringTask ''r'' (Some ''2024-06-01'') ?r"
  let ?w = "exampleWorld [?t]"
  let ?ut = "?t\<lparr>status := ''completed'', updatedAt := 1717243200000, completedAt := Some 1717243200000\<rparr>"
  let ?w2 = "\<lparr>blob = Some (initialData\<lparr>tasks := [?ut], lastUpdated := Some 1717243200000\<rparr>), trace = []\<rparr>"
  let ?td = "\<lparr>d_title = Some ''r'', d_description = Some [],
              d_priority = Some ''medium'', d_tags = Some [],
              d_dueDate = Some ''2024-06-02'', d_parentId = None, d_recurring = Some ?r\<rparr>"
  have f: "find (\<lambda>t. taskId t = ''r'') (persisted ?w) = Some ?t"
    by (simp add: exampleWorld_simps recurringTask_simps)
  have g: "getTasks ?w = ([?t], ?w)" by (simp add: getTasks_def getData_cases exampleWorld_def)
  have sd: "stackDepth exampleHost = Suc 7" by (simp add: exampleHost_def)
  have p2: "persisted ?w2 = [?ut]" by (simp add: persisted_def)
  have room: "\<not> capacityError exampleHost (documentWith exampleHost ?w2 (persisted ?w2 @ [x]))" for x
    unfolding p2 by (simp add: documentWith_def getData_cases exampleHost_room)
  have v: "(if truthy (d_dueDate ?td) then validateDate exampleHost (the (d_dueDate ?td)) else Inr None)
      = Inr (Some ''2024-06-02'')"
    by (simp add: truthy_def validateDate_def newDate_def exampleHost_def parse_example_next TimeClip_def)
  have ti: "truthy (d_title ?td)" "trim (the (d_title ?td)) \<noteq> []"
    by (simp_all add: truthy_def trim_def isSpace_def)
  obtain n where c: "createTask exampleHost ?td ?w2
        = (Inr n, \<lparr>blob = Some (documentWith exampleHost ?w2 (persisted ?w2 @ [n])), trace = trace ?w2\<rparr>)"
    and dn: "dueDate n = Some ''2024-06-02''"
    using createTask_returns [OF ti v sd room] by blast
  have cn: "createNextRecurrence exampleHost ?t ?w2
      = (Inr (Some n), \<lparr>blob = Some (documentWith exampleHost ?w2 (persisted ?w2 @ [n])), trace = trace ?w2\<rparr>)"
    by (simp add: createNextRecurrence_def nextOccurrence_example truthy_def c recurringTask_simps)
  have r: "fst (toggleTaskStatusWithRecurrence exampleHost ''r'' ?w) = Inr (?ut, Some n)"
    by (simp add: toggleTaskStatusWithRecurrence_def getTaskById_eq f g toggled_def
        recurringTask_simps truthy_def toggle_example_update cn Let_def)
  show ?thesis
    using toggle_recurrence [OF f r] by (simp add: r dn)
qed

text \<open>An active task with a recurrence rule, no parent and no due date is completed by
  the toggle, and the next task is null.\<close>

theorem toggle_recurrence_counterexample:
  "map_sum id (\<lambda>r. (status (fst r), snd r))
     (fst (toggleTaskStatusWithRecurrence exampleHost ''r''
        (exampleWorld [recurringTask ''r'' None \<lparr>frequency = ''daily'', interval = IntervalNumber 1\<rparr>])))
     = Inr (''completed'', None)
   \<and> status (recurringTask ''r'' None \<lparr>frequency = ''daily'', interval = IntervalNumber 1\<rparr>) = ''active''
   \<and> recurring (recurringTask ''r'' None \<lparr>frequency = ''daily'', interval = IntervalNumber 1\<rparr>)
       = Some \<lparr>frequency = ''daily'', interval = IntervalNumber 1\<rparr>
   \<and> parentId (recurringTask ''r'' None \<lparr>frequency = ''daily'', interval = IntervalNumber 1\<rparr>) = None"
proof -
  let ?t = "recurringTask ''r'' None \<lparr>frequency = ''daily'', interval = IntervalNumber 1\<rparr>"
  let ?w = "exampleWorld [?t]"
  have f: "find (\<lambda>t. taskId t = ''r'') (persisted ?w) = Some ?t"
    by (simp add: exampleWorld_simps recurringTask_simps)
  have g: "getTasks ?w = ([?t], ?w)" by (simp add: getTasks_def getData_cases exampleWorld_def)
  have "fst (toggleTaskStatusWithRecurrence exampleHost ''r'' ?w)
      = Inr (?t\<lparr>status := ''completed'', updatedAt := 1717243200000, completedAt := Some 1717243200000\<rparr>, None)"
    by (simp add: toggleTaskStatusWithRecurrence_def getTaskById_eq f g toggled_def
        recurringTask_simps truthy_def toggle_example_update createNextRecurrence_def
        nextOccurrence_no_dueDate Let_def)
  then show ?thesis by (simp add: recurringTask_simps)
qed

section \<open>The completion invariant\<close>

lemma snd_case_result:
  "snd (case p of (a, w2) \<Rightarrow> (case a of Inl e \<Rightarrow> (Inl e, w2) | Inr x \<Rightarrow> (F x, w2))) = snd p"
  by (auto split: prod.splits sum.splits)

lemma list_all_update:
  "list_all P xs \<Longrightarrow> P x \<Longrightarrow> list_all P (xs[k := x])"
  by (metis list_all_iff insert_iff set_update_subset_insert subsetD)

lemma consistent_statusChange:
  assumes "completionConsistent t" and "documentedStatus u"
  shows "completionConsistent (statusChange h u (mergeUpdates h t u))"
  using assms
  by (auto simp: completionConsistent_def documentedStatus_def statusChange_def mergeUpdates_def
      orElse_def)

lemma consistent_new:
  "status t = ''active'' \<Longrightarrow> completedAt t = None \<Longrightarrow> completionConsistent t"
  by (simp add: completionConsistent_def)

lemma createTask_invariant:
  assumes "list_all completionConsistent (persisted w)"
  shows "list_all completionConsistent (persisted (snd (createTask h td w)))"
proof -
  obtain ts w1 where g: "getTasks w = (ts, w1)" by (cases "getTasks w")
  have ts: "list_all completionConsistent ts" and w1: "list_all completionConsistent (persisted w1)"
    using getTasks_eq [OF g] assms by simp_all
  have s: "list_all completionConsistent (persisted (snd (saveTasks h n (ts @ [t]) w1)))"
    if "status t = ''active''" "completedAt t = None" for t n
    using that ts w1 by (intro saveTasks_preserves) (simp_all add: consistent_new)
  show ?thesis
    using assms
    by (auto simp: createTask_def g Let_def snd_case_result s split: if_splits sum.splits)
qed

lemma updateTask_invariant:
  assumes "list_all completionConsistent (persisted w)" and "documentedStatus u"
  shows "list_all completionConsistent (persisted (snd (updateTask h i u w)))"
proof -
  obtain ts w1 where g: "getTasks w = (ts, w1)" by (cases "getTasks w")
  have ts: "list_all completionConsistent ts" and w1: "list_all completionConsistent (persisted w1)"
    and e: "ts = persisted w"
    using getTasks_eq [OF g] assms by simp_all
  show ?thesis
  proof (cases "findIndex i ts")
    case None
    then show ?thesis using w1 by (simp add: updateTask_def g)
  next
    case (Some k)
    have tk: "completionConsistent (ts ! k)"
      using findIndex_Some [OF Some] ts by (simp add: list_all_length)
    show ?thesis
    proof (cases "validateUpdates h u")
      case (Inl e)
      then show ?thesis using w1 by (simp add: updateTask_def g Some)
    next
      case (Inr u1)
      have "documentedStatus u1"
        using validateUpdates_status [OF Inr] assms(2) by (simp add: documentedStatus_def)
      then have "completionConsistent (statusChange h u1 (mergeUpdates h (ts ! k) u1))"
        using tk by (rule consistent_statusChange [rotated])
      then have "list_all completionConsistent (ts[k := statusChange h u1 (mergeUpdates h (ts ! k) u1)])"
        using ts by (rule list_all_update [rotated])
      then show ?thesis
        using w1 by (simp add: updateTask_def g Some Inr Let_def snd_case_result saveTasks_preserves)
    qed
  qed
qed

lemma deleteTask_invariant:
  assumes "list_all completionConsistent (persisted w)"
  shows "list_all completionConsistent (persisted (snd (deleteTask h i w)))"
proof -
  obtain ts w1 where g: "getTasks w = (ts, w1)" by (cases "getTasks w")
  have ts: "list_all completionConsistent ts" and w1: "list_all completionConsistent (persisted w1)"
    using getTasks_eq [OF g] assms by simp_all
  have "list_all completionConsistent (filter (\<lambda>t. taskId t \<noteq> i) ts)"
    using ts by (simp add: list_all_iff)
  then show ?thesis
    using w1 by (simp add: deleteTask_def g Let_def snd_case_result saveTasks_preserves)
qed

lemma documentedStatus_toggled: "documentedStatus (noUpdates\<lparr>u_status := Some (toggled t)\<rparr>)"
  by (simp add: documentedStatus_def toggled_def)

lemma documentedStatus_fixed:
  "documentedStatus (noUpdates\<lparr>u_status := Some ''completed''\<rparr>)"
  "documentedStatus (noUpdates\<lparr>u_status := Some ''active''\<rparr>)"
  by (simp_all add: documentedStatus_def)

lemma getTasks_invariant:
  "list_all completionConsistent (persisted w) \<Longrightarrow> list_all completionConsistent (persisted (snd (getTasks w)))"
  by (simp add: persisted_getTasks)

lemma toggleTaskStatus_invariant:
  assumes "list_all completionConsistent (persisted w)"
  shows "list_all completionConsistent (persisted (snd (toggleTaskStatus h i w)))"
  using assms
  by (auto simp: toggleTaskStatus_def getTaskById_eq getTasks_invariant updateTask_invariant
      documentedStatus_toggled split: option.splits)

lemma createSubtask_invariant:
  assumes "list_all completionConsistent (persisted w)"
  shows "list_all completionConsistent (persisted (snd (createSubtask h p sd w)))"
proof -
  obtain ts w1 where g: "getTasks w = (ts, w1)" by (cases "getTasks w")
  have ts: "list_all completionConsistent ts" and w1: "list_all completionConsistent (persisted w1)"
    using getTasks_eq [OF g] assms by simp_all
  show ?thesis
  proof (cases "findIndex p ts")
    case None
    then show ?thesis using w1 by (simp add: createSubtask_def g)
  next
    case (Some k)
    have tk: "completionConsistent (ts ! k)"
      using findIndex_Some [OF Some] ts by (simp add: list_all_length)
    obtain r w2 where c: "createTask h (sd\<lparr>d_parentId := Some p\<rparr>) w1 = (r, w2)"
      by (cases "createTask h (sd\<lparr>d_parentId := Some p\<rparr>) w1")
    have w2: "list_all completionConsistent (persisted w2)"
      using createTask_invariant [OF w1, of h "sd\<lparr>d_parentId := Some p\<rparr>"] c by simp
    show ?thesis
    proof (cases r)
      case (Inl e)
      then show ?thesis using w2 by (simp add: createSubtask_def g Some c)
    next
      case (Inr subtask)
      have "completionConsistent ((ts ! k)\<lparr>subtasks := Some (orElse (subtasks (ts ! k)) [] @ [taskId subtask]),
                                          updatedAt := now h\<rparr>)"
        using tk by (simp add: completionConsistent_def)
      then have "list_all completionConsistent
          (ts[k := (ts ! k)\<lparr>subtasks := Some (orElse (subtasks (ts ! k)) [] @ [taskId subtask]),
                             updatedAt := now h\<rparr>])"
        using ts by (rule list_all_update [rotated])
      then show ?thesis
        using w2 by (simp add: createSubtask_def g Some c Inr Let_def snd_case_result saveTasks_preserves)
    qed
  qed
qed

lemma updateParentTaskProgress_invariant:
  assumes "list_all completionConsistent (persisted w)"
  shows "list_all completionConsistent (persisted (snd (updateParentTaskProgress h p w)))"
proof -
  have g: "getSubtasks p w = (filter (\<lambda>t. parentId t = Some p) (persisted w), snd (getTasks w))"
    using fst_getTasks [of w] by (auto simp: getSubtasks_def split: prod.splits)
  note w1 = getTasks_invariant [OF assms]
  note w2 = getTasks_invariant [OF w1]
  show ?thesis
    using w1 w2
    by (auto simp: updateParentTaskProgress_def g getTaskById_eq snd_case_result
        updateTask_invariant documentedStatus_fixed split: option.splits)
qed

lemma createNextRecurrence_invariant:
  assumes "list_all completionConsistent (persisted w)"
  shows "list_all completionConsistent (persisted (snd (createNextRecurrence h t w)))"
  using assms
  by (auto simp: createNextRecurrence_def snd_case_result createTask_invariant
      split: sum.splits)

lemma toggleTaskStatusWithRecurrence_invariant:
  assumes "list_all completionConsistent (persisted w)"
  shows "list_all completionConsistent (persisted (snd (toggleTaskStatusWithRecurrence h i w)))"
proof (cases "find (\<lambda>t. taskId t = i) (persisted w)")
  case None
  then show ?thesis
    using getTasks_invariant [OF assms] by (simp add: toggleTaskStatusWithRecurrence_def getTaskById_eq)
next
  case (Some t)
  let ?u = "noUpdates\<lparr>u_status := Some (toggled t)\<rparr>"
  obtain r w2 where u: "updateTask h i ?u (snd (getTasks w)) = (r, w2)"
    by (cases "updateTask h i ?u (snd (getTasks w))")
  have w2: "list_all completionConsistent (persisted w2)"
    using updateTask_invariant [OF getTasks_invariant [OF assms] documentedStatus_toggled, of h i t] u
    by simp
  show ?thesis
    using w2 createNextRecurrence_invariant [OF w2, of h t]
    by (cases r)
      (auto simp: toggleTaskStatusWithRecurrence_def getTaskById_eq Some u Let_def snd_case_result)
qed

lemma perform_invariant:
  assumes "list_all completionConsistent (persisted w)" and "documented c"
  shows "list_all completionConsistent (persisted (perform h c w))"
  using assms
  by (cases c)
    (simp_all add: createTask_invariant updateTask_invariant toggleTaskStatus_invariant
      deleteTask_invariant createSubtask_invariant updateParentTaskProgress_invariant
      createNextRecurrence_invariant toggleTaskStatusWithRecurrence_invariant)

lemma run_invariant:
  "list_all (\<lambda>c. documented (snd c)) cs \<Longrightarrow> list_all completionConsistent (persisted w) \<Longrightarrow>
   list_all completionConsistent (persisted (run cs w))"
  by (induction cs arbitrary: w) (auto simp: perform_invariant)

text \<open>
  Claim C3. Start from the empty store and apply any sequence of the store's
  operations (create, update, toggle, delete, create subtask, update parent progress,
  create next recurrence, toggle with recurrence), each at any moment of any host and
  whether it returns or throws, where every patch has a documented status (none,
  \<open>active\<close> or \<open>completed\<close>). Then every task in the store has a completion time if and
  only if its status is \<open>completed\<close>.
\<close>

theorem completion_invariant:
  assumes "list_all (\<lambda>c. documented (snd c)) cs"
  shows "list_all completionConsistent (persisted (run cs emptyWorld))"
proof -
  have "list_all completionConsistent (persisted emptyWorld)"
    by (simp add: persisted_def emptyWorld_def)
  then show ?thesis using assms by (intro run_invariant)
qed

theorem completion_invariant_witness:
  "list_all completionConsistent (persisted (run
     [(exampleHost, Create \<lparr>d_title = Some ''write report'', d_description = None, d_priority = Some ''high'',
                            d_tags = None, d_dueDate = Some ''2024-06-02'', d_parentId = None,
                            d_recurring = None\<rparr>),
      (exampleHost, Update ''task_1717243200000_k3x9q2a'' (noUpdates\<lparr>u_status := Some ''completed''\<rparr>)),
      (exampleHost, ToggleStatusWithRecurrence ''task_1717243200000_k3x9q2a''),
      (exampleHost, Delete ''task_0_none'')]
     emptyWorld))"
  using completion_invariant [of
     "[(exampleHost, Create \<lparr>d_title = Some ''write report'', d_description = None, d_priority = Some ''high'',
                            d_tags = None, d_dueDate = Some ''2024-06-02'', d_parentId = None,
                            d_recurring = None\<rparr>),
      (exampleHost, Update ''task_1717243200000_k3x9q2a'' (noUpdates\<lparr>u_status := Some ''completed''\<rparr>)),
      (exampleHost, ToggleStatusWithRecurrence ''task_1717243200000_k3x9q2a''),
      (exampleHost, Delete ''task_0_none'')]"]
  by (simp add: documentedStatus_def)

section \<open>The next occurrence\<close>

lemma div_step:
  fixes n k :: int
  assumes "1 < k"
  shows "(n + 1) div k = n div k + (if (n + 1) mod k = 0 then 1 else 0)"
proof -
  define q where "q = n div k"
  define r where "r = n mod k"
  have n: "n = k * q + r" by (simp add: q_def r_def)
  have r: "0 \<le> r" "r < k" using assms by (simp_all add: r_def)
  show ?thesis
  proof (cases "r + 1 < k")
    case True
    have e: "n + 1 = k * q + (r + 1)" using n by simp
    have "(n + 1) div k = q" by (rule int_div_pos_eq [OF e]) (use r True in simp_all)
    moreover have "(n + 1) mod k = r + 1" by (rule int_mod_pos_eq [OF e]) (use r True in simp_all)
    ultimately show ?thesis using r by (simp add: q_def)
  next
    case False
    then have rk: "r + 1 = k" using r by simp
    have e: "n + 1 = k * (q + 1) + 0" using n rk by (simp add: algebra_simps)
    have "(n + 1) div k = q + 1" by (rule int_div_pos_eq [OF e]) (use assms in simp_all)
    moreover have "(n + 1) mod k = 0" by (rule int_mod_pos_eq [OF e]) (use assms in simp_all)
    ultimately show ?thesis by (simp add: q_def)
  qed
qed

lemma mod_sub_multiple:
  fixes a :: int
  shows "(a - c * k) mod c = a mod c"
proof -
  have "(a + c * (- k)) mod c = a mod c" by (rule mod_mult_self2)
  then show ?thesis by simp
qed

lemma mod_shift:
  fixes y :: int
  shows "(y - 1968) mod 4 = y mod 4"
    and "(y - 1900) mod 100 = y mod 100"
    and "(y - 1600) mod 400 = y mod 400"
  using mod_sub_multiple [of y 4 492] mod_sub_multiple [of y 100 19] mod_sub_multiple [of y 400 4]
  by simp_all

lemma dvd_chain:
  fixes y :: int
  shows "y mod 400 = 0 \<Longrightarrow> y mod 100 = 0" and "y mod 100 = 0 \<Longrightarrow> y mod 4 = 0"
proof -
  have a: "(100::int) dvd 400" and b: "(4::int) dvd 100" by simp_all
  show "y mod 400 = 0 \<Longrightarrow> y mod 100 = 0"
    using dvd_trans [OF a, of y] by (simp add: mod_eq_0_iff_dvd)
  show "y mod 100 = 0 \<Longrightarrow> y mod 4 = 0"
    using dvd_trans [OF b, of y] by (simp add: mod_eq_0_iff_dvd)
qed

lemma DayFromYear_step: "DayFromYear (y + 1) = DayFromYear y + 365 + InLeapYear y"
proof -
  define p4 where "p4 = (y - 1969) div 4"
  define p100 where "p100 = (y - 1901) div 100"
  define p400 where "p400 = (y - 1601) div 400"
  define l4 :: int where "l4 = (if y mod 4 = 0 then 1 else 0)"
  define l100 :: int where "l100 = (if y mod 100 = 0 then 1 else 0)"
  define l400 :: int where "l400 = (if y mod 400 = 0 then 1 else 0)"
  have a: "(y + 1 - 1969) div 4 = p4 + l4"
    using div_step [of 4 "y - 1969"] mod_shift(1) [of y] by (simp add: algebra_simps p4_def l4_def)
  have b: "(y + 1 - 1901) div 100 = p100 + l100"
    using div_step [of 100 "y - 1901"] mod_shift(2) [of y] by (simp add: algebra_simps p100_def l100_def)
  have c: "(y + 1 - 1601) div 400 = p400 + l400"
    using div_step [of 400 "y - 1601"] mod_shift(3) [of y] by (simp add: algebra_simps p400_def l400_def)
  have l: "InLeapYear y = l4 - l100 + l400"
  proof (cases "y mod 400 = 0")
    case True
    then have "y mod 100 = 0" by (rule dvd_chain(1))
    moreover from this have "y mod 4 = 0" by (rule dvd_chain(2))
    ultimately show ?thesis using True unfolding InLeapYear_def l4_def l100_def l400_def
      by (simp only: if_True if_False simp_thms; simp)
  next
    case False
    show ?thesis
    proof (cases "y mod 100 = 0")
      case True
      then have "y mod 4 = 0" by (rule dvd_chain(2))
      then show ?thesis using True False unfolding InLeapYear_def l4_def l100_def l400_def
        by (simp only: if_True if_False simp_thms; simp)
    next
      case h: False
      show ?thesis
      proof (cases "y mod 4 = 0")
        case True
        then show ?thesis using h False unfolding InLeapYear_def l4_def l100_def l400_def
          by (simp only: if_True if_False simp_thms; simp)
      next
        case f: False
        then show ?thesis using h False unfolding InLeapYear_def l4_def l100_def l400_def
          by (simp only: if_True if_False simp_thms; simp)
      qed
    qed
  qed
  have "DayFromYear (y + 1) = 365 * (y + 1 - 1970) + (p4 + l4) - (p100 + l100) + (p400 + l400)"
    unfolding DayFromYear_def a b c by (rule refl)
  moreover have "DayFromYear y = 365 * (y - 1970) + p4 - p100 + p400"
    unfolding DayFromYear_def p4_def p100_def p400_def by (rule refl)
  ultimately show ?thesis unfolding l by (simp only: ring_distribs; simp)
qed

lemma Day_as_date:
  "Day t = DayFromYear (YearFromTime t) + monthStart (MonthFromTime t) (InLeapYear (YearFromTime t))
           + DateFromTime t - 1"
  by (simp add: DateFromTime_def DayWithinYear_def)

lemma InLeapYear_cases: "InLeapYear y = 0 \<or> InLeapYear y = 1"
  by (simp add: InLeapYear_def)

lemma MakeDay_next_month:
  assumes "0 \<le> m" and "m \<le> 11"
  shows "MakeDay y (m + 1) dt = DayFromYear y + monthStart m (InLeapYear y) + dt - 1 + daysInMonth y m"
proof (cases "m = 11")
  case True
  then show ?thesis
    by (simp add: MakeDay_def DayFromYear_step monthStart_def daysInMonth_def)
next
  case False
  then have m: "m \<le> 10" using assms by simp
  then have "(m + 1) div 12 = 0" and "(m + 1) mod 12 = m + 1" using assms by simp_all
  moreover have "monthStart (m + 1) l = monthStart m l + daysInMonth y m" if "l = InLeapYear y" for l
  proof -
    have "m = 0 \<or> m = 1 \<or> m = 2 \<or> m = 3 \<or> m = 4 \<or> m = 5 \<or> m = 6 \<or> m = 7
        \<or> m = 8 \<or> m = 9 \<or> m = 10"
      using assms m by presburger
    then show ?thesis
      by (elim disjE) (simp_all add: monthStart_def daysInMonth_def that)
  qed
  ultimately show ?thesis by (simp add: MakeDay_def)
qed

text \<open>\<open>d.setMonth(d.getMonth() + 1)\<close> moves the reading of the local clock by the length
  of its month.\<close>

lemma setMonth_getMonth:
  "setMonth h (Some t) (num_add (getMonth h (Some t)) 1)
     = localDaysLater h t (daysInMonth (YearFromTime (LocalTime h t)) (MonthFromTime (LocalTime h t)))"
proof -
  let ?lt = "LocalTime h t"
  have "MakeDay (YearFromTime ?lt) (MonthFromTime ?lt + 1) (DateFromTime ?lt)
      = Day ?lt + daysInMonth (YearFromTime ?lt) (MonthFromTime ?lt)"
    using MakeDay_next_month [of "MonthFromTime ?lt" "YearFromTime ?lt" "DateFromTime ?lt"]
      MonthFromTime_range [of ?lt] Day_as_date [of ?lt]
    by simp
  then show ?thesis
    by (simp add: setMonth_def getMonth_def num_add_def Let_def MakeDate_Day localDaysLater_UTC)
qed

lemma nextOccurrence_interval:
  assumes "recurring t = Some r" and "dueDate t = Some s" and "s \<noteq> []" and "newDate h s = Some d"
  shows "calculateNextOccurrence h t =
           (if frequency r = ''daily'' then isoDateOf (localDaysLater h d (intervalValue (interval r)))
            else if frequency r = ''weekly'' then
              isoDateOf (localDaysLater h d (7 * intervalValue (interval r)))
            else if frequency r = ''monthly'' then
              isoDateOf (setMonth h (Some d) (num_add (getMonth h (Some d)) (intervalValue (interval r))))
            else Inr None)"
  using assms
  by (simp add: calculateNextOccurrence_def truthy_def Let_def setDate_getDate isoDateOf_def
      split: option.splits)

text \<open>The calendar date of a time is that of its day; a valid date is within the range
  of time values; and a time less than a day after a midnight lies on the same day.\<close>

lemma toISODate_Day: "Day a = Day b \<Longrightarrow> toISODate a = toISODate b"
  by (simp add: toISODate_def YearFromTime_def MonthFromTime_def DateFromTime_def DayWithinYear_def)

lemma newDate_range: "newDate h s = Some d \<Longrightarrow> \<bar>d\<bar> \<le> 8640000000000000"
  by (auto simp: newDate_def TimeClip_def split: option.splits if_splits)

lemma same_day:
  assumes "TimeWithinDay d = 0" and "0 \<le> x" and "x < msPerDay"
  shows "Day (d + x) = Day d"
proof -
  have d: "d = Day d * msPerDay"
    using assms(1) div_mult_mod_eq [of d msPerDay] by (simp add: Day_def TimeWithinDay_def)
  have "(Day d * msPerDay + x) div msPerDay = Day d"
    using assms(2,3) by (simp add: div_pos_pos_trivial msPerDay_def)
  then show ?thesis
    using d unfolding Day_def [of "d + x"] by simp
qed

lemma midnight_below_limit:
  assumes "TimeWithinDay d = 0" and "d < 8640000000000000"
  shows "d + msPerDay \<le> 8640000000000000"
proof -
  have d: "d = Day d * msPerDay"
    using assms(1) div_mult_mod_eq [of d msPerDay] by (simp add: Day_def TimeWithinDay_def)
  have "Day d * 86400000 < 100000000 * 86400000"
    using assms(2) d by (simp add: msPerDay_def)
  then have "Day d < 100000000" by simp
  then have "(Day d + 1) * 86400000 \<le> 100000000 * 86400000"
    by (intro mult_right_mono) simp_all
  then show ?thesis
    using d by (simp add: msPerDay_def algebra_simps)
qed

text \<open>A daily step from a midnight of UTC, with the clocks put forward in between, ends on
  the day it started from.\<close>

lemma localDaysLater_same_day:
  assumes "\<bar>d\<bar> \<le> 8640000000000000" and "d < 8640000000000000" and "TimeWithinDay d = 0"
    and "0 < offsetGrowth h d 1" and "offsetGrowth h d 1 \<le> msPerDay"
  shows "isoDateOf (localDaysLater h d 1) = Inr (Some (toISODate d))"
proof -
  define x where "x = msPerDay - offsetGrowth h d 1"
  have x: "0 \<le> x" "x < msPerDay" using assms(4,5) by (simp_all add: x_def)
  have e: "d + 1 * msPerDay - offsetGrowth h d 1 = d + x" by (simp add: x_def)
  have "d + x \<le> 8640000000000000"
    using midnight_below_limit [OF assms(3,2)] x by simp
  moreover have "- 8640000000000000 \<le> d + x" using assms(1) x by simp
  ultimately have "TimeClip (d + x) = Some (d + x)" by (simp add: TimeClip_def)
  then show ?thesis
    unfolding localDaysLater_def e
    by (simp add: isoDateOf_def toISODate_Day [OF same_day [OF assms(3) x]])
qed

lemmas date_eval =
  toISODate_def YearFromTime_def YearFromDay_def Day_def msPerDay_def year_search.simps
  DayFromYear_def MonthFromTime_def DayWithinYear_def InLeapYear_def DateFromTime_def
  monthStart_def isoYear_def pad_def show_nat.simps digits_def

text \<open>
  Claim C10. Let a task have a due date that is a valid date, with the time value
  \<open>d\<close>, and a recurrence rule without an interval. Then \<open>calculateNextOccurrence\<close>
  returns what it returns for the same rule with the interval 1. But it moves the date
  on the local clock and formats the result in UTC: what it returns is the UTC calendar
  date of the time one day after \<open>d\<close> on the local clock for the frequency daily, seven
  days after \<open>d\<close> for weekly, and, for monthly, as many days after \<open>d\<close> as the month has
  in which \<open>d\<close> lies in local time. That time is the given number of days after \<open>d\<close>
  less what the offset of local time has grown in between; if no time value is left,
  the call throws. So the result is the date one day or seven days later when the
  offset is the same at both ends; but the daily rule returns the due date itself
  whenever the due date is a midnight of UTC (other than the last time value) and the
  offset grows (by a day at most) until the same reading of the local clock a day
  later, as it does when the clocks are put forward for the summer. And the monthly
  rule carries over the day of the month of the local date, which on a host behind UTC
  is not that of the due date.
\<close>

theorem next_occurrence_default_interval:
  assumes "recurring t = Some r" and "interval r = IntervalMissing"
    and "dueDate t = Some s" and "s \<noteq> []" and "newDate h s = Some d"
  shows "calculateNextOccurrence h t
           = calculateNextOccurrence h (t\<lparr>recurring := Some (r\<lparr>interval := IntervalNumber 1\<rparr>)\<rparr>)
       \<and> (frequency r = ''daily'' \<longrightarrow>
            calculateNextOccurrence h t = isoDateOf (localDaysLater h d 1))
       \<and> (frequency r = ''weekly'' \<longrightarrow>
            calculateNextOccurrence h t = isoDateOf (localDaysLater h d 7))
       \<and> (frequency r = ''monthly'' \<longrightarrow>
            calculateNextOccurrence h t
              = isoDateOf (localDaysLater h d
                  (daysInMonth (YearFromTime (LocalTime h d)) (MonthFromTime (LocalTime h d)))))
       \<and> (frequency r = ''daily'' \<and> TimeWithinDay d = 0 \<and> d < 8640000000000000
            \<and> 0 < offsetGrowth h d 1 \<and> offsetGrowth h d 1 \<le> msPerDay \<longrightarrow>
            calculateNextOccurrence h t = Inr (Some (toISODate d)))"
proof -
  have a: "calculateNextOccurrence h t =
           (if frequency r = ''daily'' then isoDateOf (localDaysLater h d 1)
            else if frequency r = ''weekly'' then isoDateOf (localDaysLater h d 7)
            else if frequency r = ''monthly'' then
              isoDateOf (setMonth h (Some d) (num_add (getMonth h (Some d)) 1))
            else Inr None)"
    using nextOccurrence_interval [OF assms(1,3,4,5)] assms(2) by (simp add: intervalValue_def)
  have b: "calculateNextOccurrence h (t\<lparr>recurring := Some (r\<lparr>interval := IntervalNumber 1\<rparr>)\<rparr>) =
           (if frequency r = ''daily'' then isoDateOf (localDaysLater h d 1)
            else if frequency r = ''weekly'' then isoDateOf (localDaysLater h d 7)
            else if frequency r = ''monthly'' then
              isoDateOf (setMonth h (Some d) (num_add (getMonth h (Some d)) 1))
            else Inr None)"
    using nextOccurrence_interval [of "t\<lparr>recurring := Some (r\<lparr>interval := IntervalNumber 1\<rparr>)\<rparr>"
        "r\<lparr>interval := IntervalNumber 1\<rparr>" s h d] assms(3,4,5)
    by (simp add: intervalValue_def)
  have c: "isoDateOf (localDaysLater h d 1) = Inr (Some (toISODate d))"
    if "TimeWithinDay d = 0" and "d < 8640000000000000"
      and "0 < offsetGrowth h d 1" and "offsetGrowth h d 1 \<le> msPerDay"
    using localDaysLater_same_day [OF newDate_range [OF assms(5)] that(2,1,3,4)] .
  show ?thesis
    using a b c by (simp add: setMonth_getMonth)
qed

text \<open>
  In UTC the day after 2024-12-31 is 2025-01-01. In London the clocks are put forward
  on 2024-03-31: the daily rule returns 2024-03-31 for the due date 2024-03-31. Five
  hours behind UTC the monthly rule returns 2024-03-30 for the due date 2024-03-01. In
  UTC the monthly rule returns 2024-03-02 for the due date 2024-01-31, and the weekly
  rule 2025-01-07 for 2024-12-31.
\<close>

theorem next_occurrence_default_interval_witness:
  "calculateNextOccurrence exampleHost
     (recurringTask ''d'' (Some ''2024-12-31'') \<lparr>frequency = ''daily'', interval = IntervalMissing\<rparr>)
     = Inr (Some ''2025-01-01'')
   \<and> calculateNextOccurrence londonHost
     (recurringTask ''d'' (Some ''2024-03-31'') \<lparr>frequency = ''daily'', interval = IntervalMissing\<rparr>)
     = Inr (Some ''2024-03-31'')
   \<and> calculateNextOccurrence bogotaHost
     (recurringTask ''m'' (Some ''2024-03-01'') \<lparr>frequency = ''monthly'', interval = IntervalMissing\<rparr>)
     = Inr (Some ''2024-03-30'')
   \<and> calculateNextOccurrence exampleHost
     (recurringTask ''m'' (Some ''2024-01-31'') \<lparr>frequency = ''monthly'', interval = IntervalMissing\<rparr>)
     = Inr (Some ''2024-03-02'')
   \<and> calculateNextOccurrence exampleHost
     (recurringTask ''w'' (Some ''2024-12-31'') \<lparr>frequency = ''weekly'', interval = IntervalMissing\<rparr>)
     = Inr (Some ''2025-01-07'')"
proof -
  have p: "parseIsoDate ''2024-12-31'' = Some 1735603200000"
    "parseIsoDate ''2024-03-31'' = Some 1711843200000"
    "parseIsoDate ''2024-03-01'' = Some 1709251200000"
    "parseIsoDate ''2024-01-31'' = Some 1706659200000"
    by (simp_all add: parseIsoDate_def digits_def MakeDay_def MakeDate_def
        DayFromYear_def InLeapYear_def monthStart_def msPerDay_def)
  have n1: "newDate exampleHost ''2024-12-31'' = Some 1735603200000"
    and n2: "newDate londonHost ''2024-03-31'' = Some 1711843200000"
    and n3: "newDate bogotaHost ''2024-03-01'' = Some 1709251200000"
    and n4: "newDate exampleHost ''2024-01-31'' = Some 1706659200000"
    by (simp_all add: newDate_def londonHost_def bogotaHost_def exampleHost_def p TimeClip_def)
  have l1: "localDaysLater exampleHost 1735603200000 1 = Some 1735689600000"
    by (simp add: localDaysLater_fixed [OF exampleHost_fixed] TimeClip_def msPerDay_def)
  have ym3: "YearFromTime (LocalTime bogotaHost 1709251200000) = 2024"
    "MonthFromTime (LocalTime bogotaHost 1709251200000) = 1"
    by (simp_all add: LocalTime_def bogotaHost_def date_eval)
  have l3: "localDaysLater bogotaHost 1709251200000 (daysInMonth 2024 1) = Some 1711756800000"
    by (simp add: localDaysLater_def offsetGrowth_def LocalTime_def bogotaHost_def TimeClip_def
        msPerDay_def daysInMonth_def InLeapYear_def)
  have ym4: "YearFromTime (LocalTime exampleHost 1706659200000) = 2024"
    "MonthFromTime (LocalTime exampleHost 1706659200000) = 0"
    by (simp_all add: LocalTime_def exampleHost_def date_eval)
  have l4: "localDaysLater exampleHost 1706659200000 (daysInMonth 2024 0) = Some 1709337600000"
    by (simp add: localDaysLater_fixed [OF exampleHost_fixed] TimeClip_def msPerDay_def daysInMonth_def)
  have d1: "toISODate 1735689600000 = ''2025-01-01''"
    and d3: "toISODate 1711756800000 = ''2024-03-30''"
    and d4: "toISODate 1709337600000 = ''2024-03-02''"
    by (simp_all add: date_eval)
  note t1 = next_occurrence_default_interval [of
      "recurringTask ''d'' (Some ''2024-12-31'') \<lparr>frequency = ''daily'', interval = IntervalMissing\<rparr>"
      "\<lparr>frequency = ''daily'', interval = IntervalMissing\<rparr>" "''2024-12-31''" exampleHost 1735603200000]
  note t2 = next_occurrence_default_interval [of
      "recurringTask ''d'' (Some ''2024-03-31'') \<lparr>frequency = ''daily'', interval = IntervalMissing\<rparr>"
      "\<lparr>frequency = ''daily'', interval = IntervalMissing\<rparr>" "''2024-03-31''" londonHost 1711843200000]
  note t3 = next_occurrence_default_interval [of
      "recurringTask ''m'' (Some ''2024-03-01'') \<lparr>frequency = ''monthly'', interval = IntervalMissing\<rparr>"
      "\<lparr>frequency = ''monthly'', interval = IntervalMissing\<rparr>" "''2024-03-01''" bogotaHost 1709251200000]
  note t4 = next_occurrence_default_interval [of
      "recurringTask ''m'' (Some ''2024-01-31'') \<lparr>frequency = ''monthly'', interval = IntervalMissing\<rparr>"
      "\<lparr>frequency = ''monthly'', interval = IntervalMissing\<rparr>" "''2024-01-31''" exampleHost 1706659200000]
  have e1: "calculateNextOccurrence exampleHost
     (recurringTask ''d'' (Some ''2024-12-31'') \<lparr>frequency = ''daily'', interval = IntervalMissing\<rparr>)
     = Inr (Some ''2025-01-01'')"
    using t1 [THEN conjunct2, THEN conjunct1]
    by (simp add: recurringTask_simps n1 l1 d1 isoDateOf_def)
  have g2: "offsetGrowth londonHost 1711843200000 1 = 3600000"
    "TimeWithinDay 1711843200000 = 0"
    by (simp_all add: offsetGrowth_def LocalTime_def londonHost_def TimeWithinDay_def msPerDay_def)
  have d0: "toISODate 1711843200000 = ''2024-03-31''"
    by (simp add: date_eval)
  have e2: "calculateNextOccurrence londonHost
     (recurringTask ''d'' (Some ''2024-03-31'') \<lparr>frequency = ''daily'', interval = IntervalMissing\<rparr>)
     = Inr (Some ''2024-03-31'')"
    using t2 [THEN conjunct2, THEN conjunct2, THEN conjunct2, THEN conjunct2]
    by (simp add: recurringTask_simps n2 g2 d0 msPerDay_def)
  have e3: "calculateNextOccurrence bogotaHost
     (recurringTask ''m'' (Some ''2024-03-01'') \<lparr>frequency = ''monthly'', interval = IntervalMissing\<rparr>)
     = Inr (Some ''2024-03-30'')"
    using t3 [THEN conjunct2, THEN conjunct2, THEN conjunct2]
    by (simp add: recurringTask_simps n3 ym3 l3 d3 isoDateOf_def)
  have e4: "calculateNextOccurrence exampleHost
     (recurringTask ''m'' (Some ''2024-01-31'') \<lparr>frequency = ''monthly'', interval = IntervalMissing\<rparr>)
     = Inr (Some ''2024-03-02'')"
    using t4 [THEN conjunct2, THEN conjunct2, THEN conjunct2]
    by (simp add: recurringTask_simps n4 ym4 l4 d4 isoDateOf_def)
  note t5 = next_occurrence_default_interval [of
      "recurringTask ''w'' (Some ''2024-12-31'') \<lparr>frequency = ''weekly'', interval = IntervalMissing\<rparr>"
      "\<lparr>frequency = ''weekly'', interval = IntervalMissing\<rparr>" "''2024-12-31''" exampleHost 1735603200000]
  have l5: "localDaysLater exampleHost 1735603200000 7 = Some 1736208000000"
    by (simp add: localDaysLater_fixed [OF exampleHost_fixed] TimeClip_def msPerDay_def)
  have d5: "toISODate 1736208000000 = ''2025-01-07''"
    by (simp add: date_eval)
  have e5: "calculateNextOccurrence exampleHost
     (recurringTask ''w'' (Some ''2024-12-31'') \<lparr>frequency = ''weekly'', interval = IntervalMissing\<rparr>)
     = Inr (Some ''2025-01-07'')"
    using t5 [THEN conjunct2, THEN conjunct2, THEN conjunct1]
    by (simp add: recurringTask_simps n1 l5 d5 isoDateOf_def)
  show ?thesis using e1 e2 e3 e4 e5 by blast
qed

section \<open>The records of a new subtask\<close>

lemma createTask_new:
  assumes "truthy (d_title td)" and "trim (the (d_title td)) \<noteq> []"
    and "(if truthy (d_dueDate td) then validateDate h (the (d_dueDate td)) else Inr None) = Inr due"
    and "stackDepth h = Suc n"
    and "\<And>t. \<not> capacityError h (documentWith h w (persisted w @ [t]))"
  shows "\<exists>t. createTask h td w
               = (Inr t, \<lparr>blob = Some (documentWith h w (persisted w @ [t])), trace = trace w\<rparr>)
             \<and> taskId t = generateId h"
proof -
  obtain ts w1 where g: "getTasks w = (ts, w1)" by (cases "getTasks w")
  have ts: "ts = persisted w" and tr: "trace w1 = trace w" using getTasks_eq [OF g] by simp_all
  have w1: "w1 = snd (getTasks w)" using g by simp
  have dw: "documentWith h w1 xs = documentWith h w xs" for xs
    unfolding w1 by (rule documentWith_getTasks)
  have s: "saveTasks h (Suc n) (persisted w @ [t]) w1
      = (Inr (), \<lparr>blob = Some (documentWith h w (persisted w @ [t])), trace = trace w\<rparr>)" for t
    using saveTasks_fits [of h w1 "persisted w @ [t]" n] assms(5) [of t] by (simp add: dw tr)
  show ?thesis
    using assms(1-4) by (simp add: createTask_def g ts Let_def s)
qed

lemma documentWith_saved:
  "documentWith h \<lparr>blob = Some (documentWith h w xs), trace = tr\<rparr> ys = documentWith h w ys"
  by (simp add: documentWith_def getData_def)

lemma find_update_other:
  assumes "list_all (\<lambda>t. taskId t \<noteq> i) ts" and "taskId x \<noteq> i"
  shows "find (\<lambda>t. taskId t = i) (ts[k := x]) = None"
proof -
  have "list_all (\<lambda>t. taskId t \<noteq> i) (ts[k := x])"
    using assms by (auto simp: list_all_iff dest: set_update_subset_insert [THEN subsetD])
  then show ?thesis
    by (simp add: find_None_iff list_all_iff)
qed

text \<open>
  \<open>createSubtask\<close> reads the tasks before \<open>createTask\<close> stores the new record, and saves
  the list that it read, with the parent changed. So when the parent exists, the data
  of the subtask is valid and both saves find room, the call returns the new subtask,
  and the store holds the tasks it held before, the parent now listing the identifier
  of the subtask: the store has as many tasks as before, and if the identifier is new,
  no stored task carries it.
\<close>

theorem createSubtask_store:
  assumes "findIndex p (persisted w) = Some k"
    and "truthy (d_title sd)" and "trim (the (d_title sd)) \<noteq> []"
    and "(if truthy (d_dueDate sd) then validateDate h (the (d_dueDate sd)) else Inr None) = Inr due"
    and "stackDepth h = Suc n"
    and "\<And>t. \<not> capacityError h (documentWith h w (persisted w @ [t]))"
    and "\<And>t. \<not> capacityError h (documentWith h w ((persisted w)[k := t]))"
  shows "\<exists>st. fst (createSubtask h p sd w) = Inr st \<and> taskId st = generateId h
      \<and> persisted (snd (createSubtask h p sd w))
          = (persisted w)[k := (persisted w ! k)
               \<lparr>subtasks := Some (orElse (subtasks (persisted w ! k)) [] @ [generateId h]),
                updatedAt := now h\<rparr>]
      \<and> (list_all (\<lambda>t. taskId t \<noteq> generateId h) (persisted w) \<longrightarrow>
           fst (getTaskById (generateId h) (snd (createSubtask h p sd w))) = None)"
proof -
  obtain ts w1 where g: "getTasks w = (ts, w1)" by (cases "getTasks w")
  have ts: "ts = persisted w" and tr: "trace w1 = trace w" and pw1: "persisted w1 = persisted w"
    using getTasks_eq [OF g] by simp_all
  have w1: "w1 = snd (getTasks w)" using g by simp
  have dw: "documentWith h w1 xs = documentWith h w xs" for xs
    unfolding w1 by (rule documentWith_getTasks)
  let ?sd = "sd\<lparr>d_parentId := Some p\<rparr>"
  have v: "(if truthy (d_dueDate ?sd) then validateDate h (the (d_dueDate ?sd)) else Inr None) = Inr due"
    using assms(4) by (simp cong: if_cong)
  have "\<exists>t. createTask h ?sd w1
      = (Inr t, \<lparr>blob = Some (documentWith h w1 (persisted w1 @ [t])), trace = trace w1\<rparr>)
      \<and> taskId t = generateId h"
    using assms(2,3,6) by (intro createTask_new [OF _ _ v assms(5)]) (simp_all add: dw pw1)
  then obtain st where c: "createTask h ?sd w1
      = (Inr st, \<lparr>blob = Some (documentWith h w (persisted w @ [st])), trace = trace w\<rparr>)"
    and i: "taskId st = generateId h"
    by (auto simp: dw pw1 tr)
  let ?w2 = "\<lparr>blob = Some (documentWith h w (persisted w @ [st])), trace = trace w\<rparr>"
  let ?p = "(persisted w ! k)
      \<lparr>subtasks := Some (orElse (subtasks (persisted w ! k)) [] @ [generateId h]), updatedAt := now h\<rparr>"
  let ?new = "(persisted w)[k := ?p]"
  have "\<not> capacityError h (documentWith h ?w2 ?new)"
    using assms(7) by (simp add: documentWith_saved)
  then have s: "saveTasks h (Suc n) ?new ?w2 = (Inr (), \<lparr>blob = Some (documentWith h w ?new), trace = trace w\<rparr>)"
    using saveTasks_fits [of h ?w2 ?new n] by (simp add: documentWith_saved)
  have r: "createSubtask h p sd w = (Inr st, \<lparr>blob = Some (documentWith h w ?new), trace = trace w\<rparr>)"
    using assms(1,5) by (simp add: createSubtask_def g ts c Let_def i s)
  have "find (\<lambda>t. taskId t = generateId h) ?new = None"
    if "list_all (\<lambda>t. taskId t \<noteq> generateId h) (persisted w)"
  proof (rule find_update_other [OF that])
    have "k < length (persisted w)" using assms(1) by (rule findIndex_Some [THEN conjunct1])
    then show "taskId ?p \<noteq> generateId h"
      using that by (simp add: list_all_length)
  qed
  then show ?thesis
    unfolding r by (simp add: i persisted_def documentWith_def getTaskById_def getTasks_def getData_def)
qed

theorem createSubtask_store_witness:
  "map taskId (persisted (snd (createSubtask exampleHost ''p''
       \<lparr>d_title = Some ''s'', d_description = None, d_priority = None, d_tags = None,
        d_dueDate = None, d_parentId = None, d_recurring = None\<rparr>
       (exampleWorld [exampleTask ''p'' ''low'' None])))) = [''p'']
   \<and> fst (getTaskById (generateId exampleHost) (snd (createSubtask exampleHost ''p''
       \<lparr>d_title = Some ''s'', d_description = None, d_priority = None, d_tags = None,
        d_dueDate = None, d_parentId = None, d_recurring = None\<rparr>
       (exampleWorld [exampleTask ''p'' ''low'' None])))) = None"
proof -
  let ?sd = "\<lparr>d_title = Some ''s'', d_description = None, d_priority = None, d_tags = None,
        d_dueDate = None, d_parentId = None, d_recurring = None\<rparr>"
  let ?w = "exampleWorld [exampleTask ''p'' ''low'' None]"
  have p: "persisted ?w = [exampleTask ''p'' ''low'' None]"
    by (simp add: persisted_def exampleWorld_def)
  have k: "findIndex ''p'' (persisted ?w) = Some 0"
    by (simp add: p exampleTask_simps)
  have t: "truthy (d_title ?sd)" "trim (the (d_title ?sd)) \<noteq> []"
    by (simp_all add: truthy_def trim_def isSpace_def)
  have d: "(if truthy (d_dueDate ?sd) then validateDate exampleHost (the (d_dueDate ?sd)) else Inr None) = Inr None"
    by (simp add: truthy_def)
  have s: "stackDepth exampleHost = Suc 7"
    by (simp add: exampleHost_def)
  have a: "\<not> capacityError exampleHost (documentWith exampleHost ?w (persisted ?w @ [x]))" for x
    unfolding documentWith_def p by (rule exampleHost_room) simp
  have b: "\<not> capacityError exampleHost (documentWith exampleHost ?w ((persisted ?w)[0 := x]))" for x
    unfolding documentWith_def p by (rule exampleHost_room) simp
  have f: "list_all (\<lambda>t. taskId t \<noteq> generateId exampleHost) (persisted ?w)"
    by (simp add: p exampleTask_simps generateId_def)
  show ?thesis
    using createSubtask_store [OF k t d s a b] f
    by (auto simp: p exampleTask_simps)
qed

end
